theory Spec2Isabelle
  imports Main
begin

section \<open>Go values: errors, panics, readers\<close>

text \<open>
  A shallow embedding of \<^verbatim>\<open>Server.go\<close>. Go's \<^verbatim>\<open>error\<close> values are a datatype; a
  function of Go that returns \<^verbatim>\<open>(T, error)\<close> returns the pair here too, the error as an
  option (\<open>None\<close> is \<^verbatim>\<open>nil\<close>). A run-time panic is the second constructor of
  \<open>outcome\<close>. Calls to \<^verbatim>\<open>log\<close> are left out: they change no result.
\<close>

datatype error =
    ErrorsNew string
  | LibError string
  | ErrTooLong

text \<open>
  \<open>ErrorsNew msg\<close> is \<^verbatim>\<open>errors.New(msg)\<close>, an error this program makes itself;
  \<open>LibError\<close> is an error handed back by a library (encoding/json, os, net/http, the
  storage client, os/exec); \<open>ErrTooLong\<close> is \<^verbatim>\<open>bufio.ErrTooLong\<close>.
\<close>

fun errorString :: "error \<Rightarrow> string" where
  "errorString (ErrorsNew msg) = msg"
| "errorString (LibError msg) = msg"
| "errorString ErrTooLong = ''bufio.Scanner: token too long''"

datatype 'a outcome = Returned 'a | Panic string

text \<open>\<^verbatim>\<open>xs[i]\<close> on a slice: a run-time panic when the index is out of range.\<close>

definition index :: "'a list \<Rightarrow> nat \<Rightarrow> 'a outcome" where
  "index xs i = (if i < length xs then Returned (xs ! i) else Panic ''index out of range'')"

text \<open>
  An \<^verbatim>\<open>io.Reader\<close> as the program uses one: it delivers \<open>content\<close> and then either
  EOF (\<open>readFault = None\<close>) or a read error.
\<close>

record reader =
  content :: string
  readFault :: "error option"

definition ReadAll :: "reader \<Rightarrow> string \<times> error option" where
  "ReadAll r = (content r, readFault r)"

text \<open>
  A slice is \<^verbatim>\<open>nil\<close> (\<open>None\<close>) or holds elements. \<^verbatim>\<open>range\<close> runs over the elements
  of both alike, \<^verbatim>\<open>append\<close> to either gives a slice that is not \<^verbatim>\<open>nil\<close>; the two
  differ where a slice is encoded as JSON.
\<close>

type_synonym 'a slice = "'a list option"

definition elements :: "'a slice \<Rightarrow> 'a list" where
  "elements s = (case s of None \<Rightarrow> [] | Some xs \<Rightarrow> xs)"

definition append_slice :: "'a slice \<Rightarrow> 'a \<Rightarrow> 'a slice" where
  "append_slice s x = Some (elements s @ [x])"

section \<open>Package strings and bytes\<close>

definition HasPrefix :: "string \<Rightarrow> string \<Rightarrow> bool" where
  "HasPrefix s pre = (take (length pre) s = pre)"

definition HasSuffix :: "string \<Rightarrow> string \<Rightarrow> bool" where
  "HasSuffix s suf = (length suf \<le> length s \<and> drop (length s - length suf) s = suf)"

text \<open>\<^verbatim>\<open>strings.Index\<close>: where \<open>sep\<close> first occurs in \<open>s\<close>; \<open>None\<close> is Go's -1.\<close>

fun Index :: "string \<Rightarrow> string \<Rightarrow> nat option" where
  "Index [] sep = (if sep = [] then Some 0 else None)"
| "Index (c # cs) sep =
     (if HasPrefix (c # cs) sep then Some 0 else map_option Suc (Index cs sep))"

text \<open>\<^verbatim>\<open>strings.SplitN(s, sep, 2)\<close> for a separator that is not empty: one piece when
  \<open>sep\<close> does not occur, else the text before its first occurrence and all the rest.\<close>

definition SplitN2 :: "string \<Rightarrow> string \<Rightarrow> string list" where
  "SplitN2 s sep =
     (case Index s sep of
        None \<Rightarrow> [s]
      | Some i \<Rightarrow> [take i s, drop (i + length sep) s])"

text \<open>\<^verbatim>\<open>strings.LastIndex\<close>, with Go's -1 when \<open>sep\<close> does not occur.\<close>

definition LastIndex :: "string \<Rightarrow> string \<Rightarrow> int" where
  "LastIndex s sep =
     (case Index (rev s) (rev sep) of
        None \<Rightarrow> - 1
      | Some i \<Rightarrow> int (length s - i - length sep))"

text \<open>
  \<^verbatim>\<open>bytes.ReplaceAll(s, old, new)\<close> for a pattern \<open>old\<close> that is not empty: the
  occurrences of \<open>old\<close> are replaced from left to right, without overlap. (The program
  calls it with a one-byte pattern only; for the empty pattern this model returns \<open>s\<close>.)
\<close>

function ReplaceAll :: "string \<Rightarrow> string \<Rightarrow> string \<Rightarrow> string" where
  "ReplaceAll [] old new = []"
| "ReplaceAll (c # cs) old new =
     (if old \<noteq> [] \<and> HasPrefix (c # cs) old
      then new @ ReplaceAll (drop (length old) (c # cs)) old new
      else c # ReplaceAll cs old new)"
  by pat_completeness auto
termination
  by (relation "measure (\<lambda>(s, old, new). length s)") (auto simp: neq_Nil_conv)

section \<open>Constants\<close>

definition BUCKET_PREFIX :: string where
  "BUCKET_PREFIX = ''gs://''"

definition OUTPUT_PREFIX :: string where
  "OUTPUT_PREFIX = ''prediction_''"

definition backslash :: char where
  "backslash = CHR 0x5C"

definition newline :: char where
  "newline = CHR 0x0A"

definition quote :: char where
  "quote = CHR 0x27"

section \<open>Locations\<close>

text \<open>
  \<^verbatim>\<open>extractLocation\<close> returns \<^verbatim>\<open>(bucket, path, error)\<close>. It indexes the result of
  \<^verbatim>\<open>SplitN\<close> at 0 and at 1 without looking at its length.
\<close>

definition extractLocation :: "string \<Rightarrow> (string \<times> string \<times> error option) outcome" where
  "extractLocation location =
     (if \<not> HasPrefix location BUCKET_PREFIX
      then Returned ('''', '''',
             Some (ErrorsNew (''location must start with '' @ [quote] @ BUCKET_PREFIX @ [quote])))
      else
        let location' = drop (length BUCKET_PREFIX) location;
            s = SplitN2 location' ''/''
        in case index s 0 of
             Panic p \<Rightarrow> Panic p
           | Returned bucket \<Rightarrow>
               (case index s 1 of
                  Panic p \<Rightarrow> Panic p
                | Returned path \<Rightarrow> Returned (bucket, path, None)))"

text \<open>
  The query of a request, \<^verbatim>\<open>r.URL.Query()\<close>: a map from a parameter's name to its
  values.
\<close>

type_synonym query = "string \<Rightarrow> string list option"

definition getParam :: "query \<Rightarrow> string \<Rightarrow> (string \<times> string \<times> error option) outcome" where
  "getParam q paramName =
     (let missing = Returned ('''', '''',
            Some (ErrorsNew (''Query Param '' @ [quote] @ paramName @ [quote] @ '' is missing'')))
      in case q paramName of
           None \<Rightarrow> missing
         | Some param \<Rightarrow>
             (case index param 0 of
                Panic p \<Rightarrow> Panic p
              | Returned p0 \<Rightarrow>
                  if length p0 < 1 then missing
                  else
                    (case extractLocation p0 of
                       Panic p \<Rightarrow> Panic p
                     | Returned (bucket, path, Some err) \<Rightarrow>
                         Returned ('''', '''',
                           Some (ErrorsNew ([quote] @ paramName @ [quote] @ '' bad formatted: ''
                                            @ errorString err)))
                     | Returned (bucket, path, None) \<Rightarrow> Returned (bucket, path, None))))"

section \<open>The JSON line transcoder\<close>

text \<open>
  Package encoding/json is not part of the program. Its two functions are parameters of
  the model: \<open>unmarshal\<close> decodes bytes into a value of the type it is given (an
  \<^verbatim>\<open>interface{}\<close>, here the type variable \<open>'v\<close>, or the struct \<^verbatim>\<open>tfAnswer\<close>), and
  \<open>marshal\<close> encodes a decoded value as compact JSON. Both may fail.
\<close>

record 'v tfAnswer =
  Prediction :: "'v list"
  Error :: string

record 'v inputPrediction =
  Instances :: "'v slice"

subsection \<open>formatOutput\<close>

text \<open>The \<^verbatim>\<open>for _, p := range answer.Prediction\<close> loop, \<open>ret\<close> its accumulator.\<close>

fun formatOutput_loop :: "('v \<Rightarrow> error + string) \<Rightarrow> 'v list \<Rightarrow> string \<Rightarrow> error + string" where
  "formatOutput_loop marshal [] ret = Inr ret"
| "formatOutput_loop marshal (p # ps) ret =
     (case marshal p of
        Inl err \<Rightarrow> Inl err
      | Inr b \<Rightarrow> formatOutput_loop marshal ps (ret @ b @ [newline]))"

definition formatOutput ::
  "(string \<Rightarrow> error + 'v tfAnswer) \<Rightarrow> ('v \<Rightarrow> error + string) \<Rightarrow> reader \<Rightarrow> string \<times> error option"
where
  "formatOutput unmarshal marshal input =
     (case ReadAll input of
        (output, Some err) \<Rightarrow> ('''', Some err)
      | (output, None) \<Rightarrow>
          (let output' = ReplaceAll output [backslash] [backslash, backslash]
           in (case unmarshal output' of
                 Inl err \<Rightarrow> ('''', Some err)
               | Inr answer \<Rightarrow>
                   (if Error answer \<noteq> '''' then ('''', Some (ErrorsNew (Error answer)))
                    else
                      (case formatOutput_loop marshal (Prediction answer) '''' of
                         Inl err \<Rightarrow> ('''', Some err)
                       | Inr ret \<Rightarrow> (ret, None))))))"

subsection \<open>bufio.Scanner with the default split function\<close>

text \<open>
  \<^verbatim>\<open>bufio.NewScanner\<close> splits its input with \<^verbatim>\<open>ScanLines\<close>: a token is a line
  without its end-of-line marker (a newline, with one carriage return before it
  dropped); the last line of the input needs no newline, and an empty last line is no
  token. The scanner's buffer holds at most \<^verbatim>\<open>MaxScanTokenSize\<close> bytes: when that many
  bytes of input hold no complete line, scanning stops and \<^verbatim>\<open>Err()\<close> is
  \<^verbatim>\<open>ErrTooLong\<close>. A line that ends in a newline fits with up to 65535 bytes before
  the newline; a last line without newline fits with up to 65535 bytes, since the full
  buffer is refused before the next read can report EOF.
\<close>

definition MaxScanTokenSize :: nat where
  "MaxScanTokenSize = 64 * 1024"

definition dropCR :: "string \<Rightarrow> string" where
  "dropCR l = (if l \<noteq> [] \<and> last l = CHR 0x0D then butlast l else l)"

text \<open>
  \<open>scanLines cur rest\<close>: \<open>cur\<close> is the line read so far, \<open>rest\<close> the input still to
  read. The result is the tokens \<^verbatim>\<open>Scan\<close> yields, in order, and the error that
  stopped it, if one did.
\<close>

fun scanLines :: "string \<Rightarrow> string \<Rightarrow> string list \<times> error option" where
  "scanLines cur [] =
     (if cur = [] then ([], None)
      else if MaxScanTokenSize \<le> length cur then ([], Some ErrTooLong)
      else ([dropCR cur], None))"
| "scanLines cur (c # cs) =
     (if MaxScanTokenSize \<le> length cur then ([], Some ErrTooLong)
      else if c = newline
      then (case scanLines [] cs of (ts, e) \<Rightarrow> (dropCR cur # ts, e))
      else scanLines (cur @ [c]) cs)"

text \<open>
  The tokens of a reader and the value of \<^verbatim>\<open>scanner.Err()\<close> after the last
  \<^verbatim>\<open>Scan\<close>. A read error ends the input like EOF does (the pending line is still a
  token) and is what \<^verbatim>\<open>Err()\<close> returns, unless \<^verbatim>\<open>ErrTooLong\<close> came first.
\<close>

definition scan :: "reader \<Rightarrow> string list \<times> error option" where
  "scan r =
     (case scanLines [] (content r) of
        (ts, Some e) \<Rightarrow> (ts, Some e)
      | (ts, None) \<Rightarrow> (ts, readFault r))"

subsection \<open>formatInput\<close>

text \<open>The \<^verbatim>\<open>for scanner.Scan()\<close> loop over the tokens; \<open>instances\<close> is
  \<^verbatim>\<open>i.Instances\<close>, which \<^verbatim>\<open>formatInput\<close> sets to the empty slice \<^verbatim>\<open>[]interface{}{}\<close>
  before the loop.\<close>

fun formatInput_loop ::
  "(string \<Rightarrow> error + 'v) \<Rightarrow> string list \<Rightarrow> 'v slice \<Rightarrow> error + 'v slice" where
  "formatInput_loop unmarshal [] instances = Inr instances"
| "formatInput_loop unmarshal (t # ts) instances =
     (case unmarshal t of
        Inl err \<Rightarrow> Inl err
      | Inr v \<Rightarrow> formatInput_loop unmarshal ts (append_slice instances v))"

text \<open>
  \<^verbatim>\<open>json.Marshal\<close> of an \<^verbatim>\<open>inputPrediction\<close>: an object with the one key
  \<^verbatim>\<open>instances\<close>, its value \<^verbatim>\<open>null\<close> for the \<^verbatim>\<open>nil\<close> slice and else the array
  of the encoded elements. The encoding fails when an element's does.
\<close>

fun marshalAll :: "('v \<Rightarrow> error + string) \<Rightarrow> 'v list \<Rightarrow> error + string list" where
  "marshalAll marshal [] = Inr []"
| "marshalAll marshal (v # vs) =
     (case marshal v of
        Inl err \<Rightarrow> Inl err
      | Inr b \<Rightarrow>
          (case marshalAll marshal vs of
             Inl err \<Rightarrow> Inl err
           | Inr bs \<Rightarrow> Inr (b # bs)))"

fun joinComma :: "string list \<Rightarrow> string" where
  "joinComma [] = []"
| "joinComma [b] = b"
| "joinComma (b # bs) = b @ '','' @ joinComma bs"

definition marshalInputPrediction ::
  "('v \<Rightarrow> error + string) \<Rightarrow> 'v inputPrediction \<Rightarrow> error + string"
where
  \<open>marshalInputPrediction marshal i =
     (case Instances i of
        None \<Rightarrow> Inr ''{"instances":null}''
      | Some vs \<Rightarrow>
          (case marshalAll marshal vs of
             Inl err \<Rightarrow> Inl err
           | Inr bs \<Rightarrow> Inr (''{"instances":['' @ joinComma bs @ '']}'')))\<close>

definition formatInput ::
  "(string \<Rightarrow> error + 'v) \<Rightarrow> ('v \<Rightarrow> error + string) \<Rightarrow> reader \<Rightarrow> string \<times> error option"
where
  "formatInput unmarshal marshal input =
     (case scan input of (tokens, scanErr) \<Rightarrow>
        (case formatInput_loop unmarshal tokens (Some []) of
           Inl err \<Rightarrow> ('''', Some err)
         | Inr instances \<Rightarrow>
             (case scanErr of
                Some err \<Rightarrow> ('''', Some err)
              | None \<Rightarrow>
                  (case marshalInputPrediction marshal \<lparr>Instances = instances\<rparr> of
                     Inl err \<Rightarrow> ('''', Some err)
                   | Inr b \<Rightarrow> (b, None)))))"

section \<open>The world outside the program\<close>

text \<open>
  The object store, the local file system, the child process and the inference endpoint are
  not part of the program. Each call the program makes to them is an event of the run, and
  what the call returns is read from a \<open>world\<close>: the objects of each bucket, the two local
  trees the program walks, and for every call that can fail the error it fails with, if
  any. A theorem about every world holds for whatever the environment does.
\<close>

text \<open>
  A local directory as \<^verbatim>\<open>ioutil.ReadDir\<close> shows it: \<open>File name bytes\<close> is a file with
  its content, \<open>Dir name entries\<close> a subdirectory with what it holds.
\<close>

datatype fsentry = File string string | Dir string "fsentry list"

text \<open>
  The events, in the words of the calls: \<^verbatim>\<open>os.RemoveAll\<close>, \<^verbatim>\<open>storage.NewClient\<close>,
  \<^verbatim>\<open>os.MkdirAll\<close>, the listing of a bucket under a prefix (the first \<^verbatim>\<open>it.Next\<close>),
  \<^verbatim>\<open>NewReader\<close> on an object, \<^verbatim>\<open>os.Create\<close>, \<^verbatim>\<open>io.Copy\<close> of bytes into a local
  file, \<^verbatim>\<open>cmd.Start\<close>, \<^verbatim>\<open>cmd.Process.Kill\<close> on a handle, \<^verbatim>\<open>ioutil.ReadDir\<close>,
  \<^verbatim>\<open>os.Open\<close>, \<^verbatim>\<open>http.Post\<close> of a request body to the endpoint, \<^verbatim>\<open>io.Copy\<close> of
  bytes into the writer of an object, \<^verbatim>\<open>Close\<close> of that writer, and the response
  (\<^verbatim>\<open>WriteHeader\<close> with a status, then \<^verbatim>\<open>Fprintln\<close> of a text).
\<close>

datatype event =
    RemoveAll string
  | NewClient
  | MkdirAll string
  | ListObjects string string
  | NewReader string string
  | Create string
  | CopyToFile string string
  | Start
  | Kill nat
  | ReadDir string
  | Open string
  | Post string
  | CopyToObject string string string
  | CloseWriter string string
  | Respond nat string

text \<open>
  The fields of a world:
  \<^item> \<open>clientFault\<close>: the error of \<^verbatim>\<open>storage.NewClient\<close>;
  \<^item> \<open>objects bucket\<close>: the objects of a bucket, name and content, in listing order;
  \<^item> \<open>listFault bucket prefix = Some (k, err)\<close>: the listing under that prefix yields \<open>k\<close>
    names and then fails with \<open>err\<close>;
  \<^item> \<open>readerFault\<close>, \<open>createFault\<close>, \<open>copyFault\<close>: the errors of \<^verbatim>\<open>NewReader\<close> on an
    object, of \<^verbatim>\<open>os.Create\<close> on a path, of \<^verbatim>\<open>io.Copy\<close> into that local file;
  \<^item> \<open>startResult\<close>: the error of \<^verbatim>\<open>cmd.Start\<close>, or the pid of the child;
  \<^item> \<open>stderrReads k\<close>: read number \<open>k\<close> on the child's error stream: the seconds it
    blocks, the bytes it returns and its error; \<open>stderrWriteFault k\<close>: the error of
    copying those bytes to \<^verbatim>\<open>os.Stderr\<close>;
  \<^item> \<open>inputTree\<close>, \<open>outputTree\<close>: what is under the local input directory when the
    predictions start, and under the local output directory when the upload starts;
  \<^item> \<open>readDirFault\<close>, \<open>openFault\<close>, \<open>fileReadFault\<close>: the errors of
    \<^verbatim>\<open>ioutil.ReadDir\<close>, of \<^verbatim>\<open>os.Open\<close> and of reading the opened file;
  \<^item> \<open>postResult body\<close>: the error of \<^verbatim>\<open>http.Post\<close> of that request, or the body of
    the response;
  \<^item> \<open>writeFault\<close>, \<open>closeFault\<close>: the errors of \<^verbatim>\<open>io.Copy\<close> into the writer of an
    object and of its \<^verbatim>\<open>Close\<close>.
\<close>

record world =
  clientFault :: "error option"
  objects :: "string \<Rightarrow> (string \<times> string) list"
  listFault :: "string \<Rightarrow> string \<Rightarrow> (nat \<times> error) option"
  readerFault :: "string \<Rightarrow> string \<Rightarrow> error option"
  createFault :: "string \<Rightarrow> error option"
  copyFault :: "string \<Rightarrow> error option"
  startResult :: "error + nat"
  stderrReads :: "nat \<Rightarrow> nat \<times> string \<times> error option"
  stderrWriteFault :: "nat \<Rightarrow> error option"
  inputTree :: "fsentry list"
  outputTree :: "fsentry list"
  readDirFault :: "string \<Rightarrow> error option"
  openFault :: "string \<Rightarrow> error option"
  fileReadFault :: "string \<Rightarrow> error option"
  postResult :: "string \<Rightarrow> error + reader"
  writeFault :: "string \<Rightarrow> string \<Rightarrow> error option"
  closeFault :: "string \<Rightarrow> string \<Rightarrow> error option"

definition MODEL_NAME :: string where "MODEL_NAME = ''mymodel''"
definition LOCAL_MODEL_PATH :: string where "LOCAL_MODEL_PATH = ''/tmp/model/''"
definition MODEL_DUMMY_VERSION :: string where "MODEL_DUMMY_VERSION = ''000000/''"
definition LOCAL_INPUT_PATH :: string where "LOCAL_INPUT_PATH = ''/tmp/input/''"
definition LOCAL_OUTPUT_PATH :: string where "LOCAL_OUTPUT_PATH = ''/tmp/output/''"
definition TF_TIMEOUT :: nat where "TF_TIMEOUT = 30"

section \<open>Downloads\<close>

text \<open>\<^verbatim>\<open>bucket.Object(key).NewReader(ctx)\<close>: its error, or the content of the object.\<close>

definition openObject :: "world \<Rightarrow> string \<Rightarrow> string \<Rightarrow> error + string" where
  "openObject w bucket key =
     (case readerFault w bucket key of
        Some err \<Rightarrow> Inl err
      | None \<Rightarrow>
          (case map_of (objects w bucket) key of
             None \<Rightarrow> Inl (LibError ''storage: object doesn't exist'')
           | Some bytes \<Rightarrow> Inr bytes))"

definition downloadFile :: "world \<Rightarrow> string \<Rightarrow> string \<Rightarrow> string \<Rightarrow> error option \<times> event list" where
  "downloadFile w bucket path dest =
     (if HasSuffix path ''/'' then (Some (ErrorsNew ''downloadFiles: path must be GCS file''), [])
      else
        (case openObject w bucket path of
           Inl err \<Rightarrow> (Some err, [NewReader bucket path])
         | Inr bytes \<Rightarrow>
             (case createFault w dest of
                Some err \<Rightarrow> (Some err, [NewReader bucket path, Create dest])
              | None \<Rightarrow>
                  (case copyFault w dest of
                     Some err \<Rightarrow>
                       (Some err, [NewReader bucket path, Create dest, CopyToFile dest bytes])
                   | None \<Rightarrow>
                       (None, [NewReader bucket path, Create dest, CopyToFile dest bytes])))))"

text \<open>
  What the iterator of \<^verbatim>\<open>bucket.Objects\<close> with a prefix yields: the names of the objects
  that start with the prefix, and the error that ends the iteration, if one does
  (\<open>None\<close> is \<^verbatim>\<open>iterator.Done\<close>).
\<close>

definition listObjects :: "world \<Rightarrow> string \<Rightarrow> string \<Rightarrow> string list \<times> error option" where
  "listObjects w bucket path =
     (let names = filter (\<lambda>n. HasPrefix n path) (map fst (objects w bucket))
      in case listFault w bucket path of
           None \<Rightarrow> (names, None)
         | Some (k, err) \<Rightarrow> (take k names, Some err))"

text \<open>The length of the longest name, for the termination of \<open>downloadFiles\<close>.\<close>

fun longest :: "string list \<Rightarrow> nat" where
  "longest [] = 0"
| "longest (n # ns) = max (length n) (longest ns)"

text \<open>
  \<open>downloadFiles_loop\<close> is the \<^verbatim>\<open>for\<close> loop over the iterator, \<open>i\<close> the number of
  names already taken from it. A name that ends in the separator is downloaded as a tree
  of its own, by a recursive call with that name as the prefix. The recursion ends: the
  prefix grows with every such call and no name of the bucket is longer than the longest.
\<close>

function downloadFiles :: "world \<Rightarrow> string \<Rightarrow> string \<Rightarrow> string \<Rightarrow> error option \<times> event list"
  and downloadFiles_loop :: "world \<Rightarrow> string \<Rightarrow> string \<Rightarrow> string \<Rightarrow> nat \<Rightarrow> error option \<times> event list"
where
  "downloadFiles w bucket path localDest =
     (if \<not> HasSuffix path ''/''
      then (Some (ErrorsNew ''downloadFiles: path must be GCS directory''), [])
      else
        (case downloadFiles_loop w bucket path localDest 0 of
           (err, evs) \<Rightarrow> (err, MkdirAll localDest # ListObjects bucket path # evs)))"
| "downloadFiles_loop w bucket path localDest i =
     (if length (fst (listObjects w bucket path)) \<le> i then (snd (listObjects w bucket path), [])
      else
        (let name = fst (listObjects w bucket path) ! i;
             n = drop (length path) name
         in if n = [] then downloadFiles_loop w bucket path localDest (Suc i)
            else if HasSuffix n ''/'' then
              (case downloadFiles w bucket name (localDest @ n) of
                 (Some err, evs) \<Rightarrow> (Some err, evs)
               | (None, evs) \<Rightarrow>
                   (case downloadFiles_loop w bucket path localDest (Suc i) of
                      (err, evs') \<Rightarrow> (err, evs @ evs')))
            else
              (case downloadFile w bucket name (localDest @ n) of
                 (Some err, evs) \<Rightarrow> (Some err, evs)
               | (None, evs) \<Rightarrow>
                   (case downloadFiles_loop w bucket path localDest (Suc i) of
                      (err, evs') \<Rightarrow> (err, evs @ evs')))))"
  by pat_completeness auto
termination
proof (relation "inv_image (less_than <*lex*> less_than <*lex*> less_than)
    (\<lambda>x. case x of
       Inl (w, bucket, path, localDest) \<Rightarrow>
         (Suc (longest (map fst (objects w bucket))) - length path, Suc 0, 0)
     | Inr (w, bucket, path, localDest, i) \<Rightarrow>
         (Suc (longest (map fst (objects w bucket))) - length path, 0,
          length (fst (listObjects w bucket path)) - i))", goal_cases)
  case 1
  show ?case by (intro wf_inv_image wf_lex_prod wf_less_than)
next
  case (2 w bucket path localDest)
  then show ?case by simp
next
  case (3 w bucket path localDest i name n)
  then show ?case by auto
next
  case (4 w bucket path localDest i name n)
  have bound: "\<And>x xs. x \<in> set xs \<Longrightarrow> length x \<le> longest xs"
  proof -
    fix x :: string and xs show "x \<in> set xs \<Longrightarrow> length x \<le> longest xs"
      by (induction xs) auto
  qed
  from 4 have "name \<in> set (fst (listObjects w bucket path))" by simp
  moreover have "set (fst (listObjects w bucket path)) \<subseteq> set (map fst (objects w bucket))"
  proof (cases "listFault w bucket path")
    case None
    then show ?thesis by (auto simp: listObjects_def)
  next
    case (Some a)
    obtain k err where "a = (k, err)" by (cases a)
    with Some have "fst (listObjects w bucket path)
        = take k (filter (\<lambda>n. HasPrefix n path) (map fst (objects w bucket)))"
      by (simp add: listObjects_def)
    moreover have "set (take k (filter (\<lambda>n. HasPrefix n path) (map fst (objects w bucket))))
        \<subseteq> set (filter (\<lambda>n. HasPrefix n path) (map fst (objects w bucket)))"
      by (rule set_take_subset)
    ultimately show ?thesis by auto
  qed
  ultimately have "name \<in> set (map fst (objects w bucket))" by blast
  then have "length name \<le> longest (map fst (objects w bucket))" by (rule bound)
  moreover from 4 have "length path < length name" by (cases "length path < length name") auto
  ultimately show ?case by auto
next
  case (5 w bucket path localDest i name n x y)
  then show ?case by auto
next
  case (6 w bucket path localDest i name n x y)
  then show ?case by auto
qed

declare downloadFiles.simps [simp del] downloadFiles_loop.simps [simp del]

section \<open>Uploads\<close>

text \<open>The branch of the loop of \<^verbatim>\<open>uploadFile\<close> for an entry that is a file.\<close>

definition uploadFile_file ::
  "world \<Rightarrow> string \<Rightarrow> string \<Rightarrow> string \<Rightarrow> string \<Rightarrow> string \<Rightarrow> error option \<times> event list"
where
  "uploadFile_file w bucket path localPath name bytes =
     (case openFault w (localPath @ name) of
        Some err \<Rightarrow> (Some err, [Open (localPath @ name)])
      | None \<Rightarrow>
          (case writeFault w bucket (path @ name) of
             Some err \<Rightarrow>
               (Some err, [Open (localPath @ name), CopyToObject bucket (path @ name) bytes])
           | None \<Rightarrow>
               (case closeFault w bucket (path @ name) of
                  Some err \<Rightarrow>
                    (Some err, [Open (localPath @ name), CopyToObject bucket (path @ name) bytes,
                                CloseWriter bucket (path @ name)])
                | None \<Rightarrow>
                    (None, [Open (localPath @ name), CopyToObject bucket (path @ name) bytes,
                            CloseWriter bucket (path @ name)]))))"

text \<open>
  \<open>entries\<close> is what \<^verbatim>\<open>ioutil.ReadDir(localPath)\<close> finds: the entries of the directory,
  each subdirectory with its own.
\<close>

fun uploadFile ::
    "world \<Rightarrow> string \<Rightarrow> string \<Rightarrow> string \<Rightarrow> fsentry list \<Rightarrow> error option \<times> event list"
  and uploadFile_loop ::
    "world \<Rightarrow> string \<Rightarrow> string \<Rightarrow> string \<Rightarrow> fsentry list \<Rightarrow> error option \<times> event list"
where
  "uploadFile w bucket path localPath entries =
     (case readDirFault w localPath of
        Some err \<Rightarrow> (Some err, [ReadDir localPath])
      | None \<Rightarrow>
          (case uploadFile_loop w bucket
                  (if \<not> HasSuffix path ''/'' then path @ ''/'' else path) localPath entries of
             (err, evs) \<Rightarrow> (err, ReadDir localPath # evs)))"
| "uploadFile_loop w bucket path localPath [] = (None, [])"
| "uploadFile_loop w bucket path localPath (Dir name sub # rest) =
     (case uploadFile w bucket (path @ name @ ''/'') (localPath @ name @ ''/'') sub of
        (Some err, evs) \<Rightarrow> (Some err, evs)
      | (None, evs) \<Rightarrow>
          (case uploadFile_loop w bucket path localPath rest of
             (err, evs') \<Rightarrow> (err, evs @ evs')))"
| "uploadFile_loop w bucket path localPath (File name bytes # rest) =
     (case uploadFile_file w bucket path localPath name bytes of
        (Some err, evs) \<Rightarrow> (Some err, evs)
      | (None, evs) \<Rightarrow>
          (case uploadFile_loop w bucket path localPath rest of
             (err, evs') \<Rightarrow> (err, evs @ evs')))"

section \<open>Predictions\<close>

text \<open>
  The branch of the loop of \<^verbatim>\<open>makePredictions\<close> for an entry that is a file. The error
  of the last \<^verbatim>\<open>io.Copy\<close> is assigned and never read.
\<close>

definition makePredictions_file ::
  "(string \<Rightarrow> error + 'v) \<Rightarrow> (string \<Rightarrow> error + 'v tfAnswer) \<Rightarrow> ('v \<Rightarrow> error + string) \<Rightarrow>
   world \<Rightarrow> string \<Rightarrow> string \<Rightarrow> string \<Rightarrow> string \<Rightarrow> error option \<times> event list"
where
  "makePredictions_file unmarshal unmarshalAnswer marshal w inputPath outputPath name bytes =
     (case openFault w (inputPath @ name) of
        Some err \<Rightarrow> (Some err, [Open (inputPath @ name)])
      | None \<Rightarrow>
          (case formatInput unmarshal marshal
                  \<lparr>content = bytes, readFault = fileReadFault w (inputPath @ name)\<rparr> of
             (finput, Some err) \<Rightarrow> (Some err, [Open (inputPath @ name)])
           | (finput, None) \<Rightarrow>
               (case postResult w finput of
                  Inl err \<Rightarrow> (Some err, [Open (inputPath @ name), Post finput])
                | Inr body \<Rightarrow>
                    (case formatOutput unmarshalAnswer marshal body of
                       (foutput, Some err) \<Rightarrow> (Some err, [Open (inputPath @ name), Post finput])
                     | (foutput, None) \<Rightarrow>
                         (case createFault w (outputPath @ OUTPUT_PREFIX @ name) of
                            Some err \<Rightarrow>
                              (Some err, [Open (inputPath @ name), Post finput,
                                          Create (outputPath @ OUTPUT_PREFIX @ name)])
                          | None \<Rightarrow>
                              (None, [Open (inputPath @ name), Post finput,
                                      Create (outputPath @ OUTPUT_PREFIX @ name),
                                      CopyToFile (outputPath @ OUTPUT_PREFIX @ name) foutput]))))))"

fun makePredictions ::
    "(string \<Rightarrow> error + 'v) \<Rightarrow> (string \<Rightarrow> error + 'v tfAnswer) \<Rightarrow> ('v \<Rightarrow> error + string) \<Rightarrow>
     world \<Rightarrow> string \<Rightarrow> string \<Rightarrow> fsentry list \<Rightarrow> error option \<times> event list"
  and makePredictions_loop ::
    "(string \<Rightarrow> error + 'v) \<Rightarrow> (string \<Rightarrow> error + 'v tfAnswer) \<Rightarrow> ('v \<Rightarrow> error + string) \<Rightarrow>
     world \<Rightarrow> string \<Rightarrow> string \<Rightarrow> fsentry list \<Rightarrow> error option \<times> event list"
where
  "makePredictions unmarshal unmarshalAnswer marshal w inputPath outputPath entries =
     (case readDirFault w inputPath of
        Some err \<Rightarrow> (Some err, [ReadDir inputPath])
      | None \<Rightarrow>
          (case makePredictions_loop unmarshal unmarshalAnswer marshal w inputPath outputPath entries of
             (err, evs) \<Rightarrow> (err, ReadDir inputPath # MkdirAll outputPath # evs)))"
| "makePredictions_loop unmarshal unmarshalAnswer marshal w inputPath outputPath [] = (None, [])"
| "makePredictions_loop unmarshal unmarshalAnswer marshal w inputPath outputPath (Dir name sub # rest) =
     (case makePredictions unmarshal unmarshalAnswer marshal w
             (inputPath @ name @ ''/'') (outputPath @ name @ ''/'') sub of
        (Some err, evs) \<Rightarrow> (Some err, evs)
      | (None, evs) \<Rightarrow>
          (case makePredictions_loop unmarshal unmarshalAnswer marshal w inputPath outputPath rest of
             (err, evs') \<Rightarrow> (err, evs @ evs')))"
| "makePredictions_loop unmarshal unmarshalAnswer marshal w inputPath outputPath (File name bytes # rest) =
     (case makePredictions_file unmarshal unmarshalAnswer marshal w inputPath outputPath name bytes of
        (Some err, evs) \<Rightarrow> (Some err, evs)
      | (None, evs) \<Rightarrow>
          (case makePredictions_loop unmarshal unmarshalAnswer marshal w inputPath outputPath rest of
             (err, evs') \<Rightarrow> (err, evs @ evs')))"

section \<open>The inference process\<close>

text \<open>\<^verbatim>\<open>strings.Contains\<close>.\<close>

definition Contains :: "string \<Rightarrow> string \<Rightarrow> bool" where
  "Contains s sub = (Index s sub \<noteq> None)"

text \<open>
  \<^verbatim>\<open>copyAndCapture\<close> runs in a goroutine while \<^verbatim>\<open>startAndWaitTF\<close> waits for its
  result or for the timer of \<^verbatim>\<open>TF_TIMEOUT\<close> seconds, whichever comes first. Time is
  counted in seconds: round \<open>k\<close> of the loop sleeps one second and then blocks in
  \<^verbatim>\<open>Read\<close> for as long as the world says, so every round takes a second or more and
  the rounds that can end before the timer are fewer than \<^verbatim>\<open>TF_TIMEOUT\<close>. The result is
  \<open>None\<close> when the loop has no result before the timer fires, else the error it returns.
  (Where both are ready in the same second Go's \<^verbatim>\<open>select\<close> may take either; the model
  takes the timer.)
\<close>

function copyAndCapture :: "world \<Rightarrow> nat \<Rightarrow> nat \<Rightarrow> error option option" where
  "copyAndCapture w k elapsed =
     (case stderrReads w k of (blocked, d, err) \<Rightarrow>
        if TF_TIMEOUT \<le> elapsed + 1 + blocked then None
        else if d \<noteq> [] then
          (case stderrWriteFault w k of
             Some werr \<Rightarrow> Some (Some werr)
           | None \<Rightarrow>
               if Contains d ''Exporting HTTP/REST API'' then Some None
               else
                 (case err of
                    Some rerr \<Rightarrow> Some (Some rerr)
                  | None \<Rightarrow> copyAndCapture w (Suc k) (elapsed + 1 + blocked)))
        else
          (case err of
             Some rerr \<Rightarrow> Some (Some rerr)
           | None \<Rightarrow> copyAndCapture w (Suc k) (elapsed + 1 + blocked)))"
  by pat_completeness auto
termination
  by (relation "measure (\<lambda>(w, k, elapsed). TF_TIMEOUT - elapsed)") auto

declare copyAndCapture.simps [simp del]

text \<open>
  \<^verbatim>\<open>startAndWaitTF\<close> returns its error, and leaves in \<^verbatim>\<open>cmd.Process\<close> the handle of
  the child (its pid) when \<^verbatim>\<open>cmd.Start\<close> succeeded, \<^verbatim>\<open>nil\<close> otherwise.
\<close>

definition startAndWaitTF :: "world \<Rightarrow> error option \<times> nat option \<times> event list" where
  "startAndWaitTF w =
     (case startResult w of
        Inl err \<Rightarrow> (Some err, None, [Start])
      | Inr pid \<Rightarrow>
          (case copyAndCapture w 0 0 of
             None \<Rightarrow> (Some (ErrorsNew ''timeout exceeded''), Some pid, [Start])
           | Some errStderr \<Rightarrow> (errStderr, Some pid, [Start])))"

section \<open>The handler\<close>

text \<open>
  A run of the handler: the events in order, and the panic that ended it, if one did. What
  the caller is sent is the \<open>Respond\<close> event (\<^verbatim>\<open>WriteHeader\<close> and \<^verbatim>\<open>Fprintln\<close>).
\<close>

record run =
  events :: "event list"
  panic :: "string option"

definition respond :: "nat \<Rightarrow> string \<Rightarrow> event" where
  "respond status msg = Respond status (msg @ [newline])"

text \<open>
  The handler from the statement after \<^verbatim>\<open>defer cmd.Process.Kill()\<close> to its return;
  \<open>err\<close> is what \<^verbatim>\<open>startAndWaitTF\<close> returned. The error of \<^verbatim>\<open>uploadFile\<close> is
  assigned and never read.
\<close>

definition LoadAndPredict_deferred ::
  "(string \<Rightarrow> error + 'v) \<Rightarrow> (string \<Rightarrow> error + 'v tfAnswer) \<Rightarrow> ('v \<Rightarrow> error + string) \<Rightarrow>
   world \<Rightarrow> error option \<Rightarrow> string \<Rightarrow> string \<Rightarrow> string \<Rightarrow> string \<Rightarrow> event list"
where
  "LoadAndPredict_deferred unmarshal unmarshalAnswer marshal w err bucketInput pathInput
       bucketOutput pathOutput =
     (case err of
        Some e \<Rightarrow> [respond 500 ''error when starting tensorflow'']
      | None \<Rightarrow>
          (case (if HasSuffix pathInput ''/''
                 then downloadFiles w bucketInput pathInput LOCAL_INPUT_PATH
                 else
                   (let n = drop (nat (LastIndex pathInput ''/'' + 1)) pathInput
                    in case downloadFile w bucketInput pathInput (LOCAL_INPUT_PATH @ n) of
                         (e, evs) \<Rightarrow> (e, MkdirAll LOCAL_INPUT_PATH # evs))) of
             (Some e, evs1) \<Rightarrow> evs1 @ [respond 500 ''error when downloading input files'']
           | (None, evs1) \<Rightarrow>
               (case makePredictions unmarshal unmarshalAnswer marshal w
                       LOCAL_INPUT_PATH LOCAL_OUTPUT_PATH (inputTree w) of
                  (Some e, evs2) \<Rightarrow> evs1 @ evs2 @ [respond 500 ''error during predictions'']
                | (None, evs2) \<Rightarrow>
                    (case uploadFile w bucketOutput pathOutput LOCAL_OUTPUT_PATH (outputTree w) of
                       (e, evs3) \<Rightarrow> evs1 @ evs2 @ evs3 @ [respond 200 ''predictions completed'']))))"

text \<open>
  The handler from the start of the storage work to its return, the parameters parsed.
  \<^verbatim>\<open>defer cmd.Process.Kill()\<close> stands right after \<^verbatim>\<open>startAndWaitTF\<close>, before its
  error is looked at: the call runs when the handler returns, on the handle
  \<^verbatim>\<open>cmd.Process\<close> holds. On a \<^verbatim>\<open>nil\<close> handle the call panics.
\<close>

definition LoadAndPredict_process ::
  "(string \<Rightarrow> error + 'v) \<Rightarrow> (string \<Rightarrow> error + 'v tfAnswer) \<Rightarrow> ('v \<Rightarrow> error + string) \<Rightarrow>
   world \<Rightarrow> string \<Rightarrow> string \<Rightarrow> string \<Rightarrow> string \<Rightarrow> string \<Rightarrow> string \<Rightarrow> run"
where
  "LoadAndPredict_process unmarshal unmarshalAnswer marshal w bucketModel pathModel
       bucketInput pathInput bucketOutput pathOutput =
     (let cleared = [RemoveAll LOCAL_MODEL_PATH, RemoveAll LOCAL_INPUT_PATH,
                     RemoveAll LOCAL_OUTPUT_PATH, NewClient]
      in case clientFault w of
           Some e \<Rightarrow>
             \<lparr>events = cleared @ [respond 500 ''error when creating storage client''], panic = None\<rparr>
         | None \<Rightarrow>
             (case downloadFiles w bucketModel pathModel (LOCAL_MODEL_PATH @ MODEL_DUMMY_VERSION) of
                (Some e, evs) \<Rightarrow>
                  \<lparr>events = cleared @ evs @ [respond 500 ''error when downloading model files''],
                   panic = None\<rparr>
              | (None, evs) \<Rightarrow>
                  (case startAndWaitTF w of (err, process, started) \<Rightarrow>
                     (let rest = LoadAndPredict_deferred unmarshal unmarshalAnswer marshal w err
                                   bucketInput pathInput bucketOutput pathOutput
                      in case process of
                           None \<Rightarrow>
                             \<lparr>events = cleared @ evs @ started @ rest,
                              panic = Some ''invalid memory address or nil pointer dereference''\<rparr>
                         | Some pid \<Rightarrow>
                             \<lparr>events = cleared @ evs @ started @ rest @ [Kill pid],
                              panic = None\<rparr>))))"

definition LoadAndPredict ::
  "(string \<Rightarrow> error + 'v) \<Rightarrow> (string \<Rightarrow> error + 'v tfAnswer) \<Rightarrow> ('v \<Rightarrow> error + string) \<Rightarrow>
   world \<Rightarrow> query \<Rightarrow> run"
where
  "LoadAndPredict unmarshal unmarshalAnswer marshal w q =
     (case getParam q ''model'' of
        Panic p \<Rightarrow> \<lparr>events = [], panic = Some p\<rparr>
      | Returned (bucketModel, pathModel, Some err) \<Rightarrow>
          \<lparr>events = [respond 400 (errorString err)], panic = None\<rparr>
      | Returned (bucketModel, pathModel, None) \<Rightarrow>
          (case getParam q ''input'' of
             Panic p \<Rightarrow> \<lparr>events = [], panic = Some p\<rparr>
           | Returned (bucketInput, pathInput, Some err) \<Rightarrow>
               \<lparr>events = [respond 400 (errorString err)], panic = None\<rparr>
           | Returned (bucketInput, pathInput, None) \<Rightarrow>
               (case getParam q ''output'' of
                  Panic p \<Rightarrow> \<lparr>events = [], panic = Some p\<rparr>
                | Returned (bucketOutput, pathOutput, Some err) \<Rightarrow>
                    \<lparr>events = [respond 400 (errorString err)], panic = None\<rparr>
                | Returned (bucketOutput, pathOutput, None) \<Rightarrow>
                    LoadAndPredict_process unmarshal unmarshalAnswer marshal w bucketModel
                      (if \<not> HasSuffix pathModel ''/'' then pathModel @ ''/'' else pathModel)
                      bucketInput pathInput bucketOutput pathOutput)))"

text \<open>The events of the handler itself: the start of the child, its kill, a response. All
  other events are calls to the store, the file system or the endpoint.\<close>

fun handlerEvent :: "event \<Rightarrow> bool" where
  "handlerEvent Start = True"
| "handlerEvent (Kill pid) = True"
| "handlerEvent (Respond status body) = True"
| "handlerEvent e = False"

section \<open>A small JSON codec\<close>

text \<open>
  An instance of the two JSON parameters, to run the model on concrete inputs. It reads and
  writes a fragment of JSON (no fractions or exponents, two escapes in strings, the members
  of an object kept in the order read, a number kept as its digits); it stands for
  encoding/json only in the examples below, never in a general theorem.
\<close>

datatype json =
    JNull
  | JBool bool
  | JNumber string
  | JString string
  | JArray "json list"
  | JObject "(string \<times> json) list"

definition dquote :: char where "dquote = CHR 0x22"

definition isSpace :: "char \<Rightarrow> bool" where
  "isSpace c = (c = CHR 0x20 \<or> c = CHR 0x09 \<or> c = CHR 0x0A \<or> c = CHR 0x0D)"

definition skipSpace :: "string \<Rightarrow> string" where
  "skipSpace s = dropWhile isSpace s"

definition isDigit :: "char \<Rightarrow> bool" where
  "isDigit c = (c \<in> set ''0123456789'')"

text \<open>The characters of a string literal after its opening quote: the text up to the
  closing quote, and what follows it. Of the escapes it reads a backslash before a backslash
  or before a quote.\<close>

fun parseChars :: "string \<Rightarrow> (string \<times> string) option" where
  "parseChars [] = None"
| "parseChars [c] = (if c = dquote then Some ([], []) else None)"
| "parseChars (c # d # cs) =
     (if c = dquote then Some ([], d # cs)
      else if c = CHR 0x5C then
        (if d = CHR 0x5C \<or> d = dquote
         then map_option (\<lambda>(t, r). (d # t, r)) (parseChars cs)
         else None)
      else if c = CHR 0x0A then None
      else map_option (\<lambda>(t, r). (c # t, r)) (parseChars (d # cs)))"

definition parseNumber :: "string \<Rightarrow> (string \<times> string) option" where
  "parseNumber s =
     (let (sign, r) = (if s \<noteq> [] \<and> hd s = CHR ''-'' then (''-'', tl s) else ('''', s));
          ds = takeWhile isDigit r
      in if ds = [] then None else Some (sign @ ds, dropWhile isDigit r))"

fun parseValue :: "nat \<Rightarrow> string \<Rightarrow> (json \<times> string) option"
and parseElems :: "nat \<Rightarrow> string \<Rightarrow> (json list \<times> string) option"
and parseMembers :: "nat \<Rightarrow> string \<Rightarrow> ((string \<times> json) list \<times> string) option"
where
  "parseValue 0 s = None"
| "parseValue (Suc n) s =
     (case skipSpace s of
        [] \<Rightarrow> None
      | c # cs \<Rightarrow>
          if c = CHR ''['' then
            (case skipSpace cs of
               [] \<Rightarrow> None
             | d # ds \<Rightarrow>
                 if d = CHR '']'' then Some (JArray [], ds)
                 else map_option (\<lambda>(es, r). (JArray es, r)) (parseElems n (d # ds)))
          else if c = CHR ''{'' then
            (case skipSpace cs of
               [] \<Rightarrow> None
             | d # ds \<Rightarrow>
                 if d = CHR ''}'' then Some (JObject [], ds)
                 else map_option (\<lambda>(ms, r). (JObject ms, r)) (parseMembers n (d # ds)))
          else if c = dquote then map_option (\<lambda>(t, r). (JString t, r)) (parseChars cs)
          else if HasPrefix (c # cs) ''true'' then Some (JBool True, drop 4 (c # cs))
          else if HasPrefix (c # cs) ''false'' then Some (JBool False, drop 5 (c # cs))
          else if HasPrefix (c # cs) ''null'' then Some (JNull, drop 4 (c # cs))
          else map_option (\<lambda>(t, r). (JNumber t, r)) (parseNumber (c # cs)))"
| "parseElems 0 s = None"
| "parseElems (Suc n) s =
     (case parseValue n s of
        None \<Rightarrow> None
      | Some (v, r) \<Rightarrow>
          (case skipSpace r of
             [] \<Rightarrow> None
           | c # cs \<Rightarrow>
               if c = CHR '']'' then Some ([v], cs)
               else if c = CHR '','' then map_option (\<lambda>(vs, r'). (v # vs, r')) (parseElems n cs)
               else None))"
| "parseMembers 0 s = None"
| "parseMembers (Suc n) s =
     (case skipSpace s of
        [] \<Rightarrow> None
      | q # qs \<Rightarrow>
          if q \<noteq> dquote then None
          else
            (case parseChars qs of
               None \<Rightarrow> None
             | Some (k, r) \<Rightarrow>
                 (case skipSpace r of
                    [] \<Rightarrow> None
                  | c # cs \<Rightarrow>
                      if c \<noteq> CHR '':'' then None
                      else
                        (case parseValue n cs of
                           None \<Rightarrow> None
                         | Some (v, r') \<Rightarrow>
                             (case skipSpace r' of
                                [] \<Rightarrow> None
                              | e # es \<Rightarrow>
                                  if e = CHR ''}'' then Some ([(k, v)], es)
                                  else if e = CHR '','' then
                                    map_option (\<lambda>(ms, r''). ((k, v) # ms, r'')) (parseMembers n es)
                                  else None)))))"

definition escapeString :: "string \<Rightarrow> string" where
  "escapeString t = concat (map (\<lambda>c. if c = CHR 0x5C \<or> c = dquote then [CHR 0x5C, c] else [c]) t)"

fun marshalJson :: "json \<Rightarrow> string" where
  "marshalJson JNull = ''null''"
| "marshalJson (JBool b) = (if b then ''true'' else ''false'')"
| "marshalJson (JNumber t) = t"
| "marshalJson (JString t) = [dquote] @ escapeString t @ [dquote]"
| "marshalJson (JArray es) = ''['' @ joinComma (map marshalJson es) @ '']''"
| "marshalJson (JObject ms) =
     ''{'' @ joinComma (map (\<lambda>(k, v). [dquote] @ escapeString k @ [dquote] @ '':'' @ marshalJson v) ms) @ ''}''"

definition sampleUnmarshal :: "string \<Rightarrow> error + json" where
  "sampleUnmarshal s =
     (case parseValue (Suc (length s)) s of
        None \<Rightarrow> Inl (LibError ''invalid JSON'')
      | Some (v, r) \<Rightarrow>
          if skipSpace r = [] then Inr v
          else Inl (LibError ''invalid character after top-level value''))"

definition sampleMarshal :: "json \<Rightarrow> error + string" where
  "sampleMarshal v = Inr (marshalJson v)"

definition sampleUnmarshalAnswer :: "string \<Rightarrow> error + json tfAnswer" where
  "sampleUnmarshalAnswer s =
     (case sampleUnmarshal s of
        Inl err \<Rightarrow> Inl err
      | Inr (JObject ms) \<Rightarrow>
          (case (case map_of ms ''predictions'' of
                   None \<Rightarrow> Some []
                 | Some JNull \<Rightarrow> Some []
                 | Some (JArray es) \<Rightarrow> Some es
                 | Some _ \<Rightarrow> None) of
             None \<Rightarrow> Inl (LibError ''cannot unmarshal predictions'')
           | Some ps \<Rightarrow>
               (case (case map_of ms ''error'' of
                        None \<Rightarrow> Some []
                      | Some JNull \<Rightarrow> Some []
                      | Some (JString e) \<Rightarrow> Some e
                      | Some _ \<Rightarrow> None) of
                  None \<Rightarrow> Inl (LibError ''cannot unmarshal error'')
                | Some e \<Rightarrow> Inr \<lparr>Prediction = ps, Error = e\<rparr>))
      | Inr _ \<Rightarrow> Inl (LibError ''cannot unmarshal into tfAnswer''))"

text \<open>A JSON string of 65536 bytes, quotes included, on one line.\<close>

definition longLine :: string where
  "longLine = dquote # replicate 65534 (CHR ''a'') @ [dquote]"

text \<open>
  Two response bodies with an escaped quote, which is valid JSON:
  \<^verbatim>\<open>{"error":"no input \"x\""}\<close> and \<^verbatim>\<open>{"predictions":["\"x\""]}\<close>.
\<close>

definition quotedErrorBody :: string where
  \<open>quotedErrorBody =
     ''{"error":"no input '' @ [CHR 0x5C, CHR 0x22] @ ''x'' @ [CHR 0x5C, CHR 0x22] @ ''"}''\<close>

definition quotedPredictionBody :: string where
  \<open>quotedPredictionBody =
     ''{"predictions":["'' @ [CHR 0x5C, CHR 0x22] @ ''x'' @ [CHR 0x5C, CHR 0x22] @ ''"]}''\<close>

text \<open>A response body with an escaped backslash: \<^verbatim>\<open>{"error":"a\\b"}\<close>.\<close>

definition backslashErrorBody :: string where
  \<open>backslashErrorBody = ''{"error":"a'' @ [CHR 0x5C, CHR 0x5C] @ ''b"}''\<close>

section \<open>A sample world\<close>

text \<open>
  One request that goes well: a model of one file, an input of one file of one line, an
  endpoint that answers with one prediction, and an output tree of one file.
\<close>

definition sampleWorld :: world where
  \<open>sampleWorld =
     \<lparr>clientFault = None,
      objects = (\<lambda>bucket.
         if bucket = ''models'' then [(''m/saved_model.pb'', ''pb'')]
         else if bucket = ''data'' then [(''in/a.jsonl'', ''{"x":1}'' @ [newline])]
         else []),
      listFault = (\<lambda>bucket path. None),
      readerFault = (\<lambda>bucket key. None),
      createFault = (\<lambda>path. None),
      copyFault = (\<lambda>path. None),
      startResult = Inr 4242,
      stderrReads = (\<lambda>k. (2, ''Exporting HTTP/REST API at:localhost:8501'', None)),
      stderrWriteFault = (\<lambda>k. None),
      inputTree = [File ''a.jsonl'' (''{"x":1}'' @ [newline])],
      outputTree = [File ''prediction_a.jsonl'' (''{"y":1}'' @ [newline])],
      readDirFault = (\<lambda>path. None),
      openFault = (\<lambda>path. None),
      fileReadFault = (\<lambda>path. None),
      postResult = (\<lambda>body. Inr \<lparr>content = ''{"predictions":[{"y":1}]}'', readFault = None\<rparr>),
      writeFault = (\<lambda>bucket key. None),
      closeFault = (\<lambda>bucket key. None)\<rparr>\<close>

definition sampleQuery :: query where
  "sampleQuery =
     [''model'' \<mapsto> [''gs://models/m/''],
      ''input'' \<mapsto> [''gs://data/in/a.jsonl''],
      ''output'' \<mapsto> [''gs://results/out'']]"

text \<open>The same world, but the store refuses the write of every object when it is closed.\<close>

definition readOnlyWorld :: world where
  "readOnlyWorld = sampleWorld\<lparr>closeFault := (\<lambda>bucket key. Some (LibError ''googleapi: Error 403''))\<rparr>"

section \<open>Notions of the specification\<close>

text \<open>
  The specification speaks of doubling every backslash, of the lines of an output and of a
  file that consists of lines. These definitions say what that means; the theorems relate
  them to what the code computes.
\<close>

text \<open>The body with every backslash byte replaced by two, every other byte kept.\<close>

definition escapeBackslashes :: "string \<Rightarrow> string" where
  "escapeBackslashes body =
     concat (map (\<lambda>c. if c = backslash then [backslash, backslash] else [c]) body)"

text \<open>The text made of the given lines, each followed by a newline.\<close>

definition joinLines :: "string list \<Rightarrow> string" where
  "joinLines ls = concat (map (\<lambda>l. l @ [newline]) ls)"

text \<open>The lines of a text: the runs of bytes between its newlines, and what follows the
  last newline when that is not empty.\<close>

fun splitLines :: "string \<Rightarrow> string \<Rightarrow> string list" where
  "splitLines cur [] = (if cur = [] then [] else [cur])"
| "splitLines cur (c # cs) =
     (if c = newline then cur # splitLines [] cs else splitLines (cur @ [c]) cs)"

definition outputLines :: "string \<Rightarrow> string list" where
  "outputLines s = splitLines [] s"

text \<open>
  A file consists of the lines \<open>ls\<close>: no line holds a newline, and the content is the lines
  each followed by a newline, or the same without the newline after a last line that is
  not empty.
\<close>

definition consistsOfLines :: "string \<Rightarrow> string list \<Rightarrow> bool" where
  "consistsOfLines s ls =
     (list_all (\<lambda>l. newline \<notin> set l) ls \<and>
      (s = joinLines ls \<or> (ls \<noteq> [] \<and> last ls \<noteq> [] \<and> s = joinLines (butlast ls) @ last ls)))"

section \<open>Properties of the transcoder\<close>

lemma ReplaceAll_single:
  "ReplaceAll s [a] new = concat (map (\<lambda>c. if c = a then new else [c]) s)"
  by (induction s) (auto simp: HasPrefix_def)

lemma ReplaceAll_escapeBackslashes:
  "ReplaceAll body [backslash] [backslash, backslash] = escapeBackslashes body"
  by (simp add: ReplaceAll_single escapeBackslashes_def)

lemma escapeBackslashes_id: "backslash \<notin> set body \<Longrightarrow> escapeBackslashes body = body"
  by (induction body) (auto simp: escapeBackslashes_def)

lemma formatOutput_loop_acc:
  "map marshal ps = map Inr ls \<Longrightarrow>
   formatOutput_loop marshal ps ret = Inr (ret @ joinLines ls)"
proof (induction ps arbitrary: ls ret)
  case Nil
  then show ?case by (simp add: joinLines_def)
next
  case (Cons p ps)
  then obtain l ls' where ls: "ls = l # ls'" "marshal p = Inr l" "map marshal ps = map Inr ls'"
    by (cases ls) auto
  with Cons.IH [of ls' "ret @ l @ [newline]"] show ?case by (simp add: joinLines_def)
qed

lemma splitLines_line:
  "newline \<notin> set l \<Longrightarrow> splitLines cur (l @ newline # rest) = (cur @ l) # splitLines [] rest"
  by (induction l arbitrary: cur) auto

lemma outputLines_joinLines:
  "\<forall>l\<in>set ls. newline \<notin> set l \<Longrightarrow> outputLines (joinLines ls) = ls"
  unfolding outputLines_def joinLines_def
proof (induction ls)
  case Nil
  then show ?case by simp
next
  case (Cons l ls)
  then show ?case using splitLines_line [of l "[]" "concat (map (\<lambda>l. l @ [newline]) ls)"] by simp
qed

text \<open>
  Claim C4, as amended. A response body is what \<^verbatim>\<open>ReadAll\<close> returned. When the body
  with its backslashes doubled (the text \<^verbatim>\<open>formatOutput\<close> parses, see C7) is an object
  with \<open>N\<close> predictions and an empty or absent error field, the output is the \<open>N\<close>
  encoded predictions, in the order of the array, each followed by a newline: the output
  has exactly the lines \<open>ls\<close>, line \<open>i\<close> the encoding of prediction \<open>i\<close>. For a body
  without backslash the doubled body is the body (\<open>escapeBackslashes_id\<close>). The encoder is
  a parameter of the model, so what encoding/json guarantees is a hypothesis here: every
  decoded prediction has an encoding, and a compact encoding holds no newline.
\<close>

theorem formatOutput_lines:
  assumes "ReadAll input = (body, None)"
      and "unmarshal (escapeBackslashes body) = Inr answer"
      and "Error answer = ''''"
      and "map marshal (Prediction answer) = map Inr ls"
      and "\<forall>l\<in>set ls. newline \<notin> set l"
    shows "formatOutput unmarshal marshal input = (joinLines ls, None)
         \<and> outputLines (fst (formatOutput unmarshal marshal input)) = ls
         \<and> length ls = length (Prediction answer)
         \<and> (\<forall>i<length ls. marshal (Prediction answer ! i) = Inr (ls ! i))"
proof -
  have run: "formatOutput unmarshal marshal input = (joinLines ls, None)"
    using assms(1-4) formatOutput_loop_acc [of marshal "Prediction answer" ls "[]"]
    by (simp add: formatOutput_def ReplaceAll_escapeBackslashes)
  have len: "length ls = length (Prediction answer)"
    using assms(4) by (metis length_map)
  have nth: "\<forall>i<length ls. marshal (Prediction answer ! i) = Inr (ls ! i)"
  proof (intro allI impI)
    fix i assume i: "i < length ls"
    then have "map marshal (Prediction answer) ! i = map Inr ls ! i"
      using assms(4) by simp
    with i len show "marshal (Prediction answer ! i) = Inr (ls ! i)" by simp
  qed
  from run len nth outputLines_joinLines [OF assms(5)] show ?thesis by simp
qed

text \<open>
  The second scenario of the specification, run with the small codec: two predictions give
  two lines.
\<close>

theorem formatOutput_lines_witness:
  \<open>formatOutput sampleUnmarshalAnswer sampleMarshal
      \<lparr>content = ''{"predictions":[{"y":1},{"y":2}]}'', readFault = None\<rparr>
    = (joinLines [''{"y":1}'', ''{"y":2}''], None)
  \<and> outputLines (fst (formatOutput sampleUnmarshalAnswer sampleMarshal
      \<lparr>content = ''{"predictions":[{"y":1},{"y":2}]}'', readFault = None\<rparr>))
    = [''{"y":1}'', ''{"y":2}'']\<close>
proof -
  let ?input = \<open>\<lparr>content = ''{"predictions":[{"y":1},{"y":2}]}'', readFault = None\<rparr>\<close>
  let ?answer = \<open>\<lparr>Prediction = [JObject [(''y'', JNumber ''1'')], JObject [(''y'', JNumber ''2'')]],
                   Error = ''''\<rparr>\<close>
  let ?ls = \<open>[''{"y":1}'', ''{"y":2}'']\<close>
  have 1: \<open>ReadAll ?input = (''{"predictions":[{"y":1},{"y":2}]}'', None)\<close>
    by (simp add: ReadAll_def)
  have 2: \<open>sampleUnmarshalAnswer (escapeBackslashes ''{"predictions":[{"y":1},{"y":2}]}'') = Inr ?answer\<close>
    by code_simp
  have 3: "Error ?answer = ''''" by simp
  have 4: "map sampleMarshal (Prediction ?answer) = map Inr ?ls" by code_simp
  have 5: "\<forall>l\<in>set ?ls. newline \<notin> set l" by (simp add: newline_def)
  note w = formatOutput_lines [where unmarshal = sampleUnmarshalAnswer and marshal = sampleMarshal, OF 1 2 3 4 5]
  from w [THEN conjunct1] w [THEN conjunct2, THEN conjunct1] show ?thesis
    by (intro conjI) assumption+
qed

text \<open>
  Claim C4 as it was stated fails. The body \<^verbatim>\<open>{"predictions":["\"x\""]}\<close> is an object
  with one prediction and no error field. With its backslashes doubled it reads
  \<^verbatim>\<open>{"predictions":["\\"x\\""]}\<close>, where the string ends after the second backslash
  and an \<^verbatim>\<open>x\<close> follows: no JSON value, for encoding/json as for the small codec. So
  \<^verbatim>\<open>formatOutput\<close> returns the parser's error and no line.
\<close>

theorem formatOutput_lines_counterexample:
  \<open>sampleUnmarshalAnswer quotedPredictionBody = Inr \<lparr>Prediction = [JString ''"x"''], Error = ''''\<rparr>
 \<and> formatOutput sampleUnmarshalAnswer sampleMarshal \<lparr>content = quotedPredictionBody, readFault = None\<rparr>
     = ('''', Some (LibError ''invalid JSON''))\<close>
  by code_simp

text \<open>
  Claim C6, as amended. When the body with its backslashes doubled (the text
  \<^verbatim>\<open>formatOutput\<close> parses) is an object with an error field that is not empty, the
  result is the empty output string and the error \<^verbatim>\<open>errors.New(answer.Error)\<close>,
  whatever the predictions field holds; the encoder is not consulted.
\<close>

theorem formatOutput_error_field:
  assumes "ReadAll input = (body, None)"
      and "unmarshal (escapeBackslashes body) = Inr answer"
      and "Error answer \<noteq> ''''"
    shows "formatOutput unmarshal marshal input = ('''', Some (ErrorsNew (Error answer)))"
  using assms by (simp add: formatOutput_def ReplaceAll_escapeBackslashes)

text \<open>A body with both fields: the error wins and no line is produced.\<close>

theorem formatOutput_error_field_witness:
  \<open>formatOutput sampleUnmarshalAnswer sampleMarshal
      \<lparr>content = ''{"predictions":[1,2],"error":"shape mismatch"}'', readFault = None\<rparr>
    = ('''', Some (ErrorsNew ''shape mismatch''))\<close>
proof -
  let ?input = \<open>\<lparr>content = ''{"predictions":[1,2],"error":"shape mismatch"}'', readFault = None\<rparr>\<close>
  let ?answer = \<open>\<lparr>Prediction = [JNumber ''1'', JNumber ''2''], Error = ''shape mismatch''\<rparr>\<close>
  have 1: \<open>ReadAll ?input = (''{"predictions":[1,2],"error":"shape mismatch"}'', None)\<close>
    by (simp add: ReadAll_def)
  have 2: \<open>sampleUnmarshalAnswer (escapeBackslashes ''{"predictions":[1,2],"error":"shape mismatch"}'')
           = Inr ?answer\<close>
    by code_simp
  have 3: "Error ?answer \<noteq> ''''" by simp
  from formatOutput_error_field [where unmarshal = sampleUnmarshalAnswer and marshal = sampleMarshal, OF 1 2 3]
  show ?thesis by simp
qed

text \<open>
  Claim C6 as it was stated fails. The body \<^verbatim>\<open>{"error":"no input \"x\""}\<close> is an
  object whose error field is the text \<^verbatim>\<open>no input "x"\<close>. With its backslashes
  doubled it is no JSON value, so \<^verbatim>\<open>formatOutput\<close> returns the parser's error, not
  \<^verbatim>\<open>errors.New\<close> of that text.
\<close>

theorem formatOutput_error_field_counterexample:
  \<open>sampleUnmarshalAnswer quotedErrorBody = Inr \<lparr>Prediction = [], Error = ''no input "x"''\<rparr>
 \<and> formatOutput sampleUnmarshalAnswer sampleMarshal \<lparr>content = quotedErrorBody, readFault = None\<rparr>
     = ('''', Some (LibError ''invalid JSON''))\<close>
  by code_simp

lemma formatOutput_loop_marshalAll:
  "formatOutput_loop marshal ps ret =
     (case marshalAll marshal ps of
        Inl err \<Rightarrow> Inl err
      | Inr ls \<Rightarrow> Inr (ret @ joinLines ls))"
proof (induction ps arbitrary: ret)
  case Nil
  then show ?case by (simp add: joinLines_def)
next
  case (Cons p ps)
  show ?case
  proof (cases "marshal p")
    case (Inl err)
    then show ?thesis by simp
  next
    case (Inr b)
    with Cons.IH [of "ret @ b @ [newline]"] show ?thesis
      by (simp add: joinLines_def split: sum.splits)
  qed
qed

text \<open>
  Claim C7. For every body that is read to its end: what \<^verbatim>\<open>bytes.ReplaceAll\<close> computes
  on it is the body with every backslash byte doubled and every other byte kept; the
  result of \<^verbatim>\<open>formatOutput\<close> is decided by the parse of that doubled body and by
  nothing else of the body: the parser's error if it has one, else the error made of
  the parsed error field if that is not empty, else the parsed predictions, encoded, one
  to a line; and the parser is asked about the doubled body only, so a parser that
  answers every question with the parse of the doubled body gives the same result.
\<close>

theorem formatOutput_parses_escaped_body:
  "ReplaceAll body [backslash] [backslash, backslash] = escapeBackslashes body
 \<and> formatOutput unmarshal marshal \<lparr>content = body, readFault = None\<rparr>
    = (case unmarshal (escapeBackslashes body) of
         Inl err \<Rightarrow> ('''', Some err)
       | Inr answer \<Rightarrow>
           if Error answer \<noteq> '''' then ('''', Some (ErrorsNew (Error answer)))
           else
             (case marshalAll marshal (Prediction answer) of
                Inl err \<Rightarrow> ('''', Some err)
              | Inr ls \<Rightarrow> (joinLines ls, None)))
 \<and> formatOutput unmarshal marshal \<lparr>content = body, readFault = None\<rparr>
    = formatOutput (\<lambda>b. unmarshal (escapeBackslashes body)) marshal \<lparr>content = body, readFault = None\<rparr>"
  by (simp add: formatOutput_def ReplaceAll_escapeBackslashes ReadAll_def
        formatOutput_loop_marshalAll split: sum.splits)

text \<open>
  The body \<^verbatim>\<open>{"error":"a\\b"}\<close>: its error field is the text \<^verbatim>\<open>a\b\<close>, with one
  backslash. The doubled body is \<^verbatim>\<open>{"error":"a\\\\b"}\<close>, whose error field has two,
  and that is the text of the error \<^verbatim>\<open>formatOutput\<close> returns: the field of the doubled
  body, not of the original.
\<close>

theorem formatOutput_parses_escaped_body_witness:
  \<open>sampleUnmarshalAnswer backslashErrorBody
     = Inr \<lparr>Prediction = [], Error = ''a'' @ [CHR 0x5C] @ ''b''\<rparr>
 \<and> escapeBackslashes backslashErrorBody = ''{"error":"a'' @ [CHR 0x5C, CHR 0x5C, CHR 0x5C, CHR 0x5C] @ ''b"}''
 \<and> formatOutput sampleUnmarshalAnswer sampleMarshal \<lparr>content = backslashErrorBody, readFault = None\<rparr>
     = ('''', Some (ErrorsNew (''a'' @ [CHR 0x5C, CHR 0x5C] @ ''b'')))\<close>
proof -
  have a: \<open>sampleUnmarshalAnswer backslashErrorBody
     = Inr \<lparr>Prediction = [], Error = ''a'' @ [CHR 0x5C] @ ''b''\<rparr>\<close>
    by code_simp
  have b: \<open>escapeBackslashes backslashErrorBody
     = ''{"error":"a'' @ [CHR 0x5C, CHR 0x5C, CHR 0x5C, CHR 0x5C] @ ''b"}''\<close>
    by code_simp
  have c: \<open>sampleUnmarshalAnswer (escapeBackslashes backslashErrorBody)
     = Inr \<lparr>Prediction = [], Error = ''a'' @ [CHR 0x5C, CHR 0x5C] @ ''b''\<rparr>\<close>
    by code_simp
  from formatOutput_parses_escaped_body [where unmarshal = sampleUnmarshalAnswer
         and marshal = sampleMarshal and body = backslashErrorBody, THEN conjunct2, THEN conjunct1]
  have \<open>formatOutput sampleUnmarshalAnswer sampleMarshal \<lparr>content = backslashErrorBody, readFault = None\<rparr>
     = ('''', Some (ErrorsNew (''a'' @ [CHR 0x5C, CHR 0x5C] @ ''b'')))\<close>
    by (simp add: c)
  with a b show ?thesis by (intro conjI)
qed

subsection \<open>The scanner\<close>

lemma MaxScanTokenSize_pos: "0 < MaxScanTokenSize"
  by (simp add: MaxScanTokenSize_def)

lemma scanLines_line:
  "newline \<notin> set l \<Longrightarrow> length (cur @ l) < MaxScanTokenSize \<Longrightarrow>
   scanLines cur (l @ newline # rest) =
     (case scanLines [] rest of (ts, e) \<Rightarrow> (dropCR (cur @ l) # ts, e))"
proof (induction l arbitrary: cur)
  case Nil
  then show ?case by simp
next
  case (Cons c l)
  from Cons.prems have "c \<noteq> newline" "\<not> MaxScanTokenSize \<le> length cur" by auto
  moreover from Cons.prems have "scanLines (cur @ [c]) (l @ newline # rest) =
     (case scanLines [] rest of (ts, e) \<Rightarrow> (dropCR ((cur @ [c]) @ l) # ts, e))"
    by (intro Cons.IH) auto
  ultimately show ?case by simp
qed

lemma scanLines_long:
  "newline \<notin> set l \<Longrightarrow> MaxScanTokenSize \<le> length (cur @ l) \<Longrightarrow>
   scanLines cur (l @ newline # rest) = ([], Some ErrTooLong) \<and> scanLines cur l = ([], Some ErrTooLong)"
proof (induction l arbitrary: cur)
  case Nil
  then show ?case using MaxScanTokenSize_pos by auto
next
  case (Cons c l)
  show ?case
  proof (cases "MaxScanTokenSize \<le> length cur")
    case True
    then show ?thesis by simp
  next
    case False
    from Cons.prems have "c \<noteq> newline" by auto
    moreover from Cons.prems have "scanLines (cur @ [c]) (l @ newline # rest) = ([], Some ErrTooLong)
        \<and> scanLines (cur @ [c]) l = ([], Some ErrTooLong)"
      by (intro Cons.IH) auto
    ultimately show ?thesis using False by simp
  qed
qed

lemma scanLines_last:
  "newline \<notin> set l \<Longrightarrow> cur @ l \<noteq> [] \<Longrightarrow> length (cur @ l) < MaxScanTokenSize \<Longrightarrow>
   scanLines cur l = ([dropCR (cur @ l)], None)"
proof (induction l arbitrary: cur)
  case Nil
  then show ?case by simp
next
  case (Cons c l)
  from Cons.prems have "c \<noteq> newline" "\<not> MaxScanTokenSize \<le> length cur" by auto
  moreover from Cons.prems have "scanLines (cur @ [c]) l = ([dropCR ((cur @ [c]) @ l)], None)"
    by (intro Cons.IH) auto
  ultimately show ?case by simp
qed

lemma scanLines_joinLines:
  "\<forall>l\<in>set ls. newline \<notin> set l \<and> length l < MaxScanTokenSize \<Longrightarrow>
   scanLines [] (joinLines ls @ rest) =
     (case scanLines [] rest of (ts, e) \<Rightarrow> (map dropCR ls @ ts, e))"
proof (induction ls)
  case Nil
  then show ?case by (simp add: joinLines_def)
next
  case (Cons l ls)
  then have "scanLines [] (l @ newline # joinLines ls @ rest) =
      (case scanLines [] (joinLines ls @ rest) of (ts, e) \<Rightarrow> (dropCR ([] @ l) # ts, e))"
    by (intro scanLines_line) auto
  with Cons show ?case by (simp add: joinLines_def split: prod.splits)
qed

text \<open>The tokens of a file that consists of short lines are its lines.\<close>
lemma scanLines_consistsOfLines:
  assumes "consistsOfLines s ls" and "\<forall>l\<in>set ls. length l < MaxScanTokenSize"
  shows "scanLines [] s = (map dropCR ls, None)"
proof -
  from assms(1) have nl: "\<forall>l\<in>set ls. newline \<notin> set l"
    by (simp add: consistsOfLines_def list_all_iff)
  from assms(1) consider (full) "s = joinLines ls"
    | (partial) "ls \<noteq> []" "last ls \<noteq> []" "s = joinLines (butlast ls) @ last ls"
    by (auto simp: consistsOfLines_def)
  then show ?thesis
  proof cases
    case full
    with nl assms(2) scanLines_joinLines [of ls "[]"] show ?thesis by simp
  next
    case partial
    have bl: "\<forall>l\<in>set (butlast ls). newline \<notin> set l \<and> length l < MaxScanTokenSize"
      using nl assms(2) by (auto dest: in_set_butlastD)
    have la: "newline \<notin> set (last ls)" "length (last ls) < MaxScanTokenSize"
      using nl assms(2) partial(1) by auto
    have "scanLines [] (last ls) = ([dropCR ([] @ last ls)], None)"
      using la partial(2) by (intro scanLines_last) auto
    with scanLines_joinLines [OF bl, of "last ls"] partial
    have "scanLines [] s = (map dropCR (butlast ls) @ [dropCR (last ls)], None)" by simp
    also have "map dropCR (butlast ls) @ [dropCR (last ls)] = map dropCR (butlast ls @ [last ls])"
      by simp
    also have "butlast ls @ [last ls] = ls" using partial(1) by simp
    finally show ?thesis .
  qed
qed

lemma formatInput_loop_acc:
  "map unmarshal ts = map Inr vs \<Longrightarrow>
   formatInput_loop unmarshal ts (Some acc) = Inr (Some (acc @ vs))"
proof (induction ts arbitrary: vs acc)
  case Nil
  then show ?case by simp
next
  case (Cons t ts)
  then obtain v vs' where "vs = v # vs'" "unmarshal t = Inr v" "map unmarshal ts = map Inr vs'"
    by (cases vs) auto
  with Cons.IH [of vs' "acc @ [v]"] show ?case by (simp add: append_slice_def elements_def)
qed

lemma formatInput_loop_fails:
  "t \<in> set ts \<Longrightarrow> unmarshal t = Inl e \<Longrightarrow> \<exists>err. formatInput_loop unmarshal ts acc = Inl err"
proof (induction ts arbitrary: acc)
  case Nil
  then show ?case by simp
next
  case (Cons a ts)
  then show ?case by (cases "unmarshal a") auto
qed

lemma formatInput_scan_error:
  "snd (scan input) = Some e \<Longrightarrow> \<exists>err. formatInput unmarshal marshal input = ('''', Some err)"
  by (auto simp: formatInput_def split: prod.splits sum.splits)

lemma formatInput_token_fails:
  "t \<in> set (fst (scan input)) \<Longrightarrow> unmarshal t = Inl e \<Longrightarrow>
   \<exists>err. formatInput unmarshal marshal input = ('''', Some err)"
  using formatInput_loop_fails [of t "fst (scan input)" unmarshal e "Some []"]
  by (auto simp: formatInput_def split: prod.splits sum.splits)

text \<open>Scanning the lines of a file either yields them all or stops at a line that is too long.\<close>
lemma scanLines_joinLines_cases:
  "\<forall>l\<in>set ls. newline \<notin> set l \<Longrightarrow>
   (\<exists>ts. scanLines [] (joinLines ls @ rest) = (ts, Some ErrTooLong)) \<or>
   (scanLines [] (joinLines ls @ rest) =
      (case scanLines [] rest of (ts, e) \<Rightarrow> (map dropCR ls @ ts, e)))"
proof (induction ls)
  case Nil
  then show ?case by (simp add: joinLines_def)
next
  case (Cons l ls)
  show ?case
  proof (cases "length l < MaxScanTokenSize")
    case True
    with Cons.prems have "scanLines [] (l @ newline # joinLines ls @ rest) =
      (case scanLines [] (joinLines ls @ rest) of (ts, e) \<Rightarrow> (dropCR ([] @ l) # ts, e))"
      by (intro scanLines_line) auto
    moreover from Cons have "(\<exists>ts. scanLines [] (joinLines ls @ rest) = (ts, Some ErrTooLong)) \<or>
      (scanLines [] (joinLines ls @ rest) =
        (case scanLines [] rest of (ts, e) \<Rightarrow> (map dropCR ls @ ts, e)))" by simp
    ultimately show ?thesis by (auto simp: joinLines_def split: prod.splits)
  next
    case False
    with Cons.prems scanLines_long [of l "[]" "joinLines ls @ rest"]
    show ?thesis by (simp add: joinLines_def)
  qed
qed

lemma scanLines_consistsOfLines_cases:
  assumes "consistsOfLines s ls"
  shows "(\<exists>ts. scanLines [] s = (ts, Some ErrTooLong)) \<or> scanLines [] s = (map dropCR ls, None)"
proof (cases "\<forall>l\<in>set ls. length l < MaxScanTokenSize")
  case True
  with assms scanLines_consistsOfLines show ?thesis by blast
next
  case False
  from assms have nl: "\<forall>l\<in>set ls. newline \<notin> set l"
    by (simp add: consistsOfLines_def list_all_iff)
  from assms consider (full) "s = joinLines ls"
    | (partial) "ls \<noteq> []" "last ls \<noteq> []" "s = joinLines (butlast ls) @ last ls"
    by (auto simp: consistsOfLines_def)
  then show ?thesis
  proof cases
    case full
    with scanLines_joinLines_cases [OF nl, of "[]"] show ?thesis by auto
  next
    case partial
    have bl: "\<forall>l\<in>set (butlast ls). newline \<notin> set l"
      using nl by (auto dest: in_set_butlastD)
    have la: "newline \<notin> set (last ls)" using nl partial(1) by auto
    have ls: "butlast ls @ [last ls] = ls" using partial(1) by simp
    show ?thesis
    proof (cases "length (last ls) < MaxScanTokenSize")
      case True
      have "scanLines [] (last ls) = ([dropCR ([] @ last ls)], None)"
        using la partial(2) True by (intro scanLines_last) auto
      with scanLines_joinLines_cases [OF bl, of "last ls"] partial(3)
      have "(\<exists>ts. scanLines [] s = (ts, Some ErrTooLong)) \<or>
            scanLines [] s = (map dropCR (butlast ls @ [last ls]), None)" by auto
      with ls show ?thesis by simp
    next
      case False
      with la scanLines_long [of "last ls" "[]" "[]"]
      have "scanLines [] (last ls) = ([], Some ErrTooLong)" by simp
      with scanLines_joinLines_cases [OF bl, of "last ls"] partial(3) show ?thesis by auto
    qed
  qed
qed

subsection \<open>formatInput\<close>

lemma marshalAll_map:
  "(marshalAll marshal vs = Inr bs) = (map marshal vs = map Inr bs)"
proof (induction vs arbitrary: bs)
  case Nil
  then show ?case by auto
next
  case (Cons v vs)
  show ?case
  proof (cases bs)
    case Nil
    then show ?thesis by (auto split: sum.splits)
  next
    case (Cons b bs')
    with Cons.IH [of bs'] show ?thesis by (auto split: sum.splits)
  qed
qed

lemma formatInput_accepts:
  assumes "consistsOfLines (content input) ls" and "readFault input = None"
      and "\<forall>l\<in>set ls. length l < MaxScanTokenSize"
      and "map unmarshal (map dropCR ls) = map Inr vs" and "map marshal vs = map Inr bs"
    shows \<open>formatInput unmarshal marshal input = (''{"instances":['' @ joinComma bs @ '']}'', None)\<close>
      and \<open>marshalInputPrediction marshal \<lparr>Instances = Some vs\<rparr>
              = Inr (''{"instances":['' @ joinComma bs @ '']}'')\<close>
proof -
  have sc: "scan input = (map dropCR ls, None)"
    using scanLines_consistsOfLines [OF assms(1,3)] assms(2) by (simp add: scan_def)
  have lp: "formatInput_loop unmarshal (map dropCR ls) (Some []) = Inr (Some vs)"
    using formatInput_loop_acc [of unmarshal "map dropCR ls" vs "[]"] assms(4) by simp
  have ma: "marshalAll marshal vs = Inr bs" using assms(5) by (simp add: marshalAll_map)
  then show env: \<open>marshalInputPrediction marshal \<lparr>Instances = Some vs\<rparr>
                  = Inr (''{"instances":['' @ joinComma bs @ '']}'')\<close>
    by (simp add: marshalInputPrediction_def)
  from sc lp env show \<open>formatInput unmarshal marshal input
      = (''{"instances":['' @ joinComma bs @ '']}'', None)\<close>
    by (simp add: formatInput_def)
qed

lemma formatInput_rejects:
  assumes "consistsOfLines (content input) ls" and "l \<in> set ls" and "unmarshal (dropCR l) = Inl e"
  shows "\<exists>err. formatInput unmarshal marshal input = ('''', Some err)"
  using scanLines_consistsOfLines_cases [OF assms(1)]
proof
  assume "\<exists>ts. scanLines [] (content input) = (ts, Some ErrTooLong)"
  then have "snd (scan input) = Some ErrTooLong" by (auto simp: scan_def)
  then show ?thesis by (rule formatInput_scan_error)
next
  assume "scanLines [] (content input) = (map dropCR ls, None)"
  then have "fst (scan input) = map dropCR ls" by (simp add: scan_def)
  with assms(2) have "dropCR l \<in> set (fst (scan input))" by simp
  with assms(3) formatInput_token_fails [of "dropCR l" input unmarshal e marshal]
  show ?thesis by blast
qed

text \<open>
  What \<^verbatim>\<open>formatInput\<close> does on a file whose lines fit the scanner's buffer. An input
  file is a reader that delivers its content and then EOF. Let the content consist of the
  lines \<open>ls\<close> (the last one with or without its newline; a carriage return before a
  newline counts as a byte of its line). If every line is shorter than
  \<^verbatim>\<open>MaxScanTokenSize\<close> and decodes to a value, the result is the encoding of the
  \<^verbatim>\<open>inputPrediction\<close> whose instances are the decoded values in line order: as many as
  there are lines, written \<^verbatim>\<open>{"instances":[...]}\<close>. If some line does not decode, the
  result is the empty string and an error, whatever the other lines are. The encoder is a
  parameter, so that every decoded value has an encoding is a hypothesis.
\<close>

lemma formatInput_short_lines:
  assumes "consistsOfLines (content input) ls"
  shows \<open>(readFault input = None \<and> (\<forall>l\<in>set ls. length l < MaxScanTokenSize)
            \<and> map unmarshal (map dropCR ls) = map Inr vs \<and> map marshal vs = map Inr bs
          \<longrightarrow> formatInput unmarshal marshal input = (''{"instances":['' @ joinComma bs @ '']}'', None)
              \<and> marshalInputPrediction marshal \<lparr>Instances = Some vs\<rparr>
                  = Inr (''{"instances":['' @ joinComma bs @ '']}'')
              \<and> length vs = length ls \<and> length bs = length ls)
        \<and> ((\<exists>l\<in>set ls. \<exists>e. unmarshal (dropCR l) = Inl e)
          \<longrightarrow> (\<exists>err. formatInput unmarshal marshal input = ('''', Some err)))\<close>
proof (intro conjI impI)
  assume h: "readFault input = None \<and> (\<forall>l\<in>set ls. length l < MaxScanTokenSize)
            \<and> map unmarshal (map dropCR ls) = map Inr vs \<and> map marshal vs = map Inr bs"
  with formatInput_accepts [OF assms, of unmarshal vs marshal bs]
  show \<open>formatInput unmarshal marshal input = (''{"instances":['' @ joinComma bs @ '']}'', None)\<close>
   and \<open>marshalInputPrediction marshal \<lparr>Instances = Some vs\<rparr>
                  = Inr (''{"instances":['' @ joinComma bs @ '']}'')\<close>
    by simp_all
  from h show "length vs = length ls" by (metis length_map)
  from h show "length bs = length ls" by (metis length_map)
next
  assume "\<exists>l\<in>set ls. \<exists>e. unmarshal (dropCR l) = Inl e"
  with formatInput_rejects [OF assms]
  show "\<exists>err. formatInput unmarshal marshal input = ('''', Some err)" by blast
qed

text \<open>Two lines give an envelope of two instances; a file whose second line is cut short
  gives an error.\<close>

lemma formatInput_short_lines_example:
  \<open>formatInput sampleUnmarshal sampleMarshal
      \<lparr>content = ''{"x":1}'' @ [newline] @ ''{"x":2}'' @ [newline], readFault = None\<rparr>
     = (''{"instances":[{"x":1},{"x":2}]}'', None)
   \<and> (\<exists>err. formatInput sampleUnmarshal sampleMarshal
      \<lparr>content = ''{"x":1}'' @ [newline] @ ''{"x":'', readFault = None\<rparr> = ('''', Some err))\<close>
proof -
  let ?good = \<open>\<lparr>content = ''{"x":1}'' @ [newline] @ ''{"x":2}'' @ [newline], readFault = None\<rparr>\<close>
  let ?bad = \<open>\<lparr>content = ''{"x":1}'' @ [newline] @ ''{"x":'', readFault = None\<rparr>\<close>
  let ?vs = \<open>[JObject [(''x'', JNumber ''1'')], JObject [(''x'', JNumber ''2'')]]\<close>
  have g: \<open>consistsOfLines (content ?good) [''{"x":1}'', ''{"x":2}'']\<close>
    by (simp add: consistsOfLines_def joinLines_def newline_def)
  have b: \<open>consistsOfLines (content ?bad) [''{"x":1}'', ''{"x":'']\<close>
    by (simp add: consistsOfLines_def joinLines_def newline_def)
  have short: \<open>\<forall>l\<in>set [''{"x":1}'', ''{"x":2}'']. length l < MaxScanTokenSize\<close>
    by (simp add: MaxScanTokenSize_def)
  have parse: \<open>map sampleUnmarshal (map dropCR [''{"x":1}'', ''{"x":2}'']) = map Inr ?vs\<close>
    by code_simp
  have enc: \<open>map sampleMarshal ?vs = map Inr [''{"x":1}'', ''{"x":2}'']\<close>
    by code_simp
  have fails: \<open>\<exists>l\<in>set [''{"x":1}'', ''{"x":'']. \<exists>e. sampleUnmarshal (dropCR l) = Inl e\<close>
  proof -
    have \<open>sampleUnmarshal (dropCR ''{"x":'') = Inl (LibError ''invalid JSON'')\<close> by code_simp
    then show ?thesis by simp
  qed
  note t1 = formatInput_short_lines [where unmarshal = sampleUnmarshal and marshal = sampleMarshal
      and vs = ?vs and bs = \<open>[''{"x":1}'', ''{"x":2}'']\<close>, OF g, THEN conjunct1, rule_format, THEN conjunct1]
  note t2 = formatInput_short_lines [where unmarshal = sampleUnmarshal and marshal = sampleMarshal,
      OF b, THEN conjunct2, rule_format, OF fails]
  have \<open>formatInput sampleUnmarshal sampleMarshal ?good
      = (''{"instances":['' @ joinComma [''{"x":1}'', ''{"x":2}''] @ '']}'', None)\<close>
    using short parse enc by (intro t1) simp
  then have \<open>formatInput sampleUnmarshal sampleMarshal ?good = (''{"instances":[{"x":1},{"x":2}]}'', None)\<close>
    by simp
  with t2 show ?thesis by (intro conjI)
qed

lemma parseChars_plain:
  "parseChars (replicate n (CHR ''a'') @ [dquote]) = Some (replicate n (CHR ''a''), [])"
proof (induction n)
  case 0
  then show ?case by simp
next
  case (Suc n)
  obtain d cs where t: "replicate n (CHR ''a'') @ [dquote] = d # cs"
    by (cases "replicate n (CHR ''a'') @ [dquote]") auto
  with Suc show ?case by (simp add: dquote_def)
qed

lemma escapeString_plain: "escapeString (replicate n (CHR ''a'')) = replicate n (CHR ''a'')"
  by (induction n) (auto simp: escapeString_def dquote_def)

lemma parseValue_string:
  "parseValue (Suc n) (dquote # s) = map_option (\<lambda>(t, r). (JString t, r)) (parseChars s)"
  by (simp add: skipSpace_def isSpace_def dquote_def)

lemma sampleUnmarshal_longLine:
  "sampleUnmarshal longLine = Inr (JString (replicate 65534 (CHR ''a'')))"
proof -
  have "parseValue (Suc (length longLine)) longLine
      = Some (JString (replicate 65534 (CHR ''a'')), [])"
    unfolding longLine_def by (simp only: parseValue_string parseChars_plain) simp
  then show ?thesis by (simp add: sampleUnmarshal_def skipSpace_def)
qed

lemma scanLines_longLine: "scanLines [] longLine = ([], Some ErrTooLong)"
proof -
  have "newline \<notin> set longLine" by (auto simp: longLine_def newline_def dquote_def)
  moreover have "MaxScanTokenSize \<le> length ([] @ longLine)"
    by (simp add: longLine_def MaxScanTokenSize_def)
  ultimately show ?thesis using scanLines_long [of longLine "[]" "[]"] by blast
qed

text \<open>
  Claim C5. A file of one line, a JSON string of 65536 bytes: the file consists of that
  line, the line decodes to a value and the value has an encoding, so the claim says
  \<^verbatim>\<open>formatInput\<close> returns the envelope of one instance. The scanner of
  \<^verbatim>\<open>bufio.NewScanner\<close>, left at its default buffer, yields no token and reports
  \<^verbatim>\<open>ErrTooLong\<close>, and \<^verbatim>\<open>formatInput\<close> returns the empty string and that error.
\<close>

theorem formatInput_long_line_fails:
  "consistsOfLines longLine [longLine]
 \<and> sampleUnmarshal (dropCR longLine) = Inr (JString (replicate 65534 (CHR ''a'')))
 \<and> sampleMarshal (JString (replicate 65534 (CHR ''a''))) = Inr longLine
 \<and> formatInput sampleUnmarshal sampleMarshal \<lparr>content = longLine, readFault = None\<rparr>
     = ('''', Some ErrTooLong)"
proof (intro conjI)
  have nl: "newline \<notin> set longLine" by (auto simp: longLine_def newline_def dquote_def)
  then show "consistsOfLines longLine [longLine]"
    by (simp add: consistsOfLines_def joinLines_def) (simp add: longLine_def)
  have "dropCR longLine = longLine" by (simp add: dropCR_def longLine_def dquote_def)
  then show "sampleUnmarshal (dropCR longLine) = Inr (JString (replicate 65534 (CHR ''a'')))"
    by (simp add: sampleUnmarshal_longLine)
  show "sampleMarshal (JString (replicate 65534 (CHR ''a''))) = Inr longLine"
    by (simp add: sampleMarshal_def escapeString_plain longLine_def)
  show "formatInput sampleUnmarshal sampleMarshal \<lparr>content = longLine, readFault = None\<rparr>
     = ('''', Some ErrTooLong)"
    by (simp add: formatInput_def scan_def scanLines_longLine)
qed

lemma scanLines_blank_line:
  "scanLines cur (a @ newline # newline # b) = (ts, e) \<Longrightarrow> [] \<in> set ts \<or> e = Some ErrTooLong"
proof (induction a arbitrary: cur ts e)
  case Nil
  show ?case
  proof (cases "MaxScanTokenSize \<le> length cur")
    case True
    with Nil show ?thesis by simp
  next
    case False
    obtain ts' e' where r: "scanLines [] b = (ts', e')" by (cases "scanLines [] b")
    have "scanLines [] (newline # b) = (dropCR [] # ts', e')"
      using r MaxScanTokenSize_pos by simp
    with Nil False have "ts = dropCR cur # dropCR [] # ts'" by simp
    then show ?thesis by (simp add: dropCR_def)
  qed
next
  case (Cons c a)
  show ?case
  proof (cases "MaxScanTokenSize \<le> length cur")
    case True
    with Cons.prems show ?thesis by simp
  next
    case long: False
    show ?thesis
    proof (cases "c = newline")
      case True
      obtain ts' e' where r: "scanLines [] (a @ newline # newline # b) = (ts', e')"
        by (cases "scanLines [] (a @ newline # newline # b)")
      with Cons.prems long True have "ts = dropCR cur # ts'" "e = e'" by auto
      with Cons.IH [OF r] show ?thesis by auto
    next
      case False
      with Cons.prems long have "scanLines (cur @ [c]) (a @ newline # newline # b) = (ts, e)"
        by simp
      then show ?thesis by (rule Cons.IH)
    qed
  qed
qed

lemma scanLines_trailing_newline:
  "(d \<noteq> [] \<and> last d \<noteq> newline) \<or> (d = [] \<and> cur \<noteq> []) \<Longrightarrow>
   scanLines cur (d @ [newline]) = scanLines cur d"
proof (induction d arbitrary: cur)
  case Nil
  then show ?case by simp
next
  case (Cons c d)
  show ?case
  proof (cases "c = newline")
    case True
    with Cons.prems have "d \<noteq> [] \<and> last d \<noteq> newline" by (cases d) auto
    then have "scanLines [] (d @ [newline]) = scanLines [] d" by (intro Cons.IH) simp
    with True show ?thesis by simp
  next
    case False
    from Cons.prems have "(d \<noteq> [] \<and> last d \<noteq> newline) \<or> (d = [] \<and> cur @ [c] \<noteq> [])"
      by (cases d) auto
    then have "scanLines (cur @ [c]) (d @ [newline]) = scanLines (cur @ [c]) d" by (rule Cons.IH)
    with False show ?thesis by simp
  qed
qed

text \<open>
  Claim C10. \<^verbatim>\<open>json.Unmarshal\<close> rejects the empty input; with that, a file whose
  scan yields an empty line is refused as a whole. In particular a file with two newlines
  in a row is refused, whatever stands before and after them (a blank line between two
  lines, or two newlines at the end). One newline after the last line changes nothing: the
  result is the one for the file without it.
\<close>

theorem formatInput_empty_line:
  assumes "unmarshal [] = Inl e0"
  shows "([] \<in> set (fst (scan input))
           \<longrightarrow> (\<exists>err. formatInput unmarshal marshal input = ('''', Some err)))
       \<and> (\<exists>err. formatInput unmarshal marshal
                  \<lparr>content = a @ [newline, newline] @ b, readFault = f\<rparr> = ('''', Some err))
       \<and> (d \<noteq> [] \<and> last d \<noteq> newline
           \<longrightarrow> formatInput unmarshal marshal \<lparr>content = d @ [newline], readFault = f\<rparr>
             = formatInput unmarshal marshal \<lparr>content = d, readFault = f\<rparr>)"
proof (intro conjI impI)
  assume "[] \<in> set (fst (scan input))"
  with assms formatInput_token_fails [of "[]" input unmarshal e0 marshal]
  show "\<exists>err. formatInput unmarshal marshal input = ('''', Some err)" by blast
next
  let ?input = "\<lparr>content = a @ [newline, newline] @ b, readFault = f\<rparr>"
  obtain ts e where r: "scanLines [] (a @ newline # newline # b) = (ts, e)"
    by (cases "scanLines [] (a @ newline # newline # b)")
  from scanLines_blank_line [OF r]
  show "\<exists>err. formatInput unmarshal marshal ?input = ('''', Some err)"
  proof
    assume "[] \<in> set ts"
    with r have "[] \<in> set (fst (scan ?input))" by (auto simp: scan_def split: option.splits)
    with assms formatInput_token_fails [of "[]" ?input unmarshal e0 marshal]
    show ?thesis by blast
  next
    assume "e = Some ErrTooLong"
    with r have "snd (scan ?input) = Some ErrTooLong" by (simp add: scan_def)
    then show ?thesis by (rule formatInput_scan_error)
  qed
next
  assume "d \<noteq> [] \<and> last d \<noteq> newline"
  then have "scanLines [] (d @ [newline]) = scanLines [] d"
    by (intro scanLines_trailing_newline) simp
  then have "scan \<lparr>content = d @ [newline], readFault = f\<rparr>
           = scan \<lparr>content = d, readFault = f\<rparr>"
    by (simp add: scan_def split: prod.splits option.splits)
  then show "formatInput unmarshal marshal \<lparr>content = d @ [newline], readFault = f\<rparr>
             = formatInput unmarshal marshal \<lparr>content = d, readFault = f\<rparr>"
    by (simp only: formatInput_def)
qed

text \<open>A blank line between two objects, two newlines at the end, and one newline at the end.\<close>

theorem formatInput_empty_line_witness:
  \<open>(\<exists>err. formatInput sampleUnmarshal sampleMarshal
       \<lparr>content = ''{"x":1}'' @ [newline, newline] @ ''{"x":2}'', readFault = None\<rparr> = ('''', Some err))
 \<and> (\<exists>err. formatInput sampleUnmarshal sampleMarshal
       \<lparr>content = ''{"x":1}'' @ [newline, newline] @ '''', readFault = None\<rparr> = ('''', Some err))
 \<and> formatInput sampleUnmarshal sampleMarshal \<lparr>content = ''{"x":1}'' @ [newline], readFault = None\<rparr>
    = formatInput sampleUnmarshal sampleMarshal \<lparr>content = ''{"x":1}'', readFault = None\<rparr>
 \<and> formatInput sampleUnmarshal sampleMarshal \<lparr>content = ''{"x":1}'', readFault = None\<rparr>
    = (''{"instances":[{"x":1}]}'', None)\<close>
proof -
  have e: "sampleUnmarshal [] = Inl (LibError ''invalid JSON'')" by code_simp
  note t = formatInput_empty_line [where unmarshal = sampleUnmarshal and marshal = sampleMarshal
      and f = None, OF e]
  have last: \<open>''{"x":1}'' \<noteq> [] \<and> last ''{"x":1}'' \<noteq> newline\<close> by (simp add: newline_def)
  have \<open>consistsOfLines (content \<lparr>content = ''{"x":1}'', readFault = None\<rparr>) [''{"x":1}'']\<close>
    by (simp add: consistsOfLines_def joinLines_def newline_def)
  moreover have \<open>map sampleUnmarshal (map dropCR [''{"x":1}'']) = map Inr [JObject [(''x'', JNumber ''1'')]]\<close>
    by code_simp
  moreover have \<open>map sampleMarshal [JObject [(''x'', JNumber ''1'')]] = map Inr [''{"x":1}'']\<close>
    by code_simp
  ultimately have run: \<open>formatInput sampleUnmarshal sampleMarshal \<lparr>content = ''{"x":1}'', readFault = None\<rparr>
    = (''{"instances":[{"x":1}]}'', None)\<close>
    using formatInput_accepts(1) [where unmarshal = sampleUnmarshal and marshal = sampleMarshal
        and input = \<open>\<lparr>content = ''{"x":1}'', readFault = None\<rparr>\<close> and ls = \<open>[''{"x":1}'']\<close>
        and vs = \<open>[JObject [(''x'', JNumber ''1'')]]\<close> and bs = \<open>[''{"x":1}'']\<close>]
    by (simp add: MaxScanTokenSize_def)
  from t [where a = \<open>''{"x":1}''\<close> and b = \<open>''{"x":2}''\<close>, THEN conjunct2, THEN conjunct1]
       t [where a = \<open>''{"x":1}''\<close> and b = \<open>''''\<close>, THEN conjunct2, THEN conjunct1]
       t [where d = \<open>''{"x":1}''\<close>, THEN conjunct2, THEN conjunct2, rule_format, OF last]
       run
  show ?thesis by (intro conjI)
qed


section \<open>Properties of location parsing\<close>

text \<open>
  Claim C2. An address with the store prefix and a container but no separator after it:
  \<^verbatim>\<open>SplitN\<close> returns one piece, and reading the second piece panics. The panic goes
  through \<^verbatim>\<open>getParam\<close> and ends the handler before any response. The claim says such
  an address fails validation.
\<close>

theorem extractLocation_no_path_panics:
  "extractLocation ''gs://bucket'' = Panic ''index out of range''
 \<and> getParam [''model'' \<mapsto> [''gs://bucket'']] ''model'' = Panic ''index out of range''
 \<and> LoadAndPredict u ua m w [''model'' \<mapsto> [''gs://bucket'']]
     = \<lparr>events = [], panic = Some ''index out of range''\<rparr>"
proof -
  have a: "extractLocation ''gs://bucket'' = Panic ''index out of range''"
    by (simp add: extractLocation_def HasPrefix_def BUCKET_PREFIX_def SplitN2_def index_def)
  then have b: "getParam [''model'' \<mapsto> [''gs://bucket'']] ''model'' = Panic ''index out of range''"
    by (simp add: getParam_def index_def)
  then show ?thesis using a by (simp add: LoadAndPredict_def)
qed

text \<open>
  An address without the store prefix is refused with an error, and the handler answers
  400 as its only event (\<open>LoadAndPredict_no_prefix\<close>). The parser panics on exactly the
  addresses that have the prefix and no separator after it.
\<close>

lemma extractLocation_no_prefix:
  "\<not> HasPrefix location BUCKET_PREFIX \<Longrightarrow>
   extractLocation location
     = Returned ('''', '''',
         Some (ErrorsNew (''location must start with '' @ [quote] @ BUCKET_PREFIX @ [quote])))"
  by (simp add: extractLocation_def)

lemma extractLocation_panics_iff:
  "(\<exists>p. extractLocation location = Panic p)
     = (HasPrefix location BUCKET_PREFIX \<and> CHR ''/'' \<notin> set (drop (length BUCKET_PREFIX) location))"
proof -
  have idx: "\<And>s. (Index s ''/'' = None) = (CHR ''/'' \<notin> set s)"
  proof -
    fix s :: string show "(Index s ''/'' = None) = (CHR ''/'' \<notin> set s)"
      by (induction s) (auto simp: HasPrefix_def)
  qed
  show ?thesis
    by (auto simp: extractLocation_def SplitN2_def index_def Let_def idx [symmetric]
             split: option.splits)
qed

lemma LoadAndPredict_no_prefix:
  assumes "q ''model'' = Some [location]" and "location \<noteq> []"
      and "\<not> HasPrefix location BUCKET_PREFIX"
  shows "LoadAndPredict u ua m w q =
     \<lparr>events = [Respond 400 ([quote] @ ''model'' @ [quote]
                    @ '' bad formatted: location must start with '' @ [quote] @ BUCKET_PREFIX @ [quote]
                    @ [newline])],
      panic = None\<rparr>"
proof -
  from assms(2) have "\<not> length location < 1" by (cases location) auto
  with assms(1,3) have "getParam q ''model'' = Returned ('''', '''',
      Some (ErrorsNew ([quote] @ ''model'' @ [quote] @ '' bad formatted: ''
          @ ''location must start with '' @ [quote] @ BUCKET_PREFIX @ [quote])))"
    by (simp add: getParam_def index_def extractLocation_no_prefix)
  then show ?thesis by (simp add: LoadAndPredict_def respond_def)
qed

section \<open>Properties of the downloads\<close>

text \<open>
  Claim C8. \<^verbatim>\<open>downloadFiles\<close> on a path that does not end in the separator, and
  \<^verbatim>\<open>downloadFile\<close> on a key that ends in it, return their error with no event at all:
  no directory made, nothing listed, no reader opened, no file created.
\<close>

theorem download_shape_guards:
  "(\<not> HasSuffix path ''/'' \<longrightarrow>
      downloadFiles w bucket path localDest
        = (Some (ErrorsNew ''downloadFiles: path must be GCS directory''), []))
 \<and> (HasSuffix key ''/'' \<longrightarrow>
      downloadFile w bucket key dest
        = (Some (ErrorsNew ''downloadFiles: path must be GCS file''), []))"
  by (simp add: downloadFile_def downloadFiles.simps)

lemma download_does_io:
  "HasSuffix path ''/'' \<Longrightarrow> snd (downloadFiles w bucket path localDest) \<noteq> []"
  "\<not> HasSuffix key ''/'' \<Longrightarrow> snd (downloadFile w bucket key dest) \<noteq> []"
  by (auto simp: downloadFile_def downloadFiles.simps split: prod.splits sum.splits option.splits)

text \<open>A file-shaped path given to the tree download, a directory-shaped key given to the
  single download.\<close>

theorem download_shape_guards_witness:
  "downloadFiles sampleWorld ''models'' ''m/saved_model.pb'' ''/tmp/model/000000/''
     = (Some (ErrorsNew ''downloadFiles: path must be GCS directory''), [])
 \<and> downloadFile sampleWorld ''data'' ''in/'' ''/tmp/input/''
     = (Some (ErrorsNew ''downloadFiles: path must be GCS file''), [])"
proof -
  have a: "\<not> HasSuffix ''m/saved_model.pb'' ''/''" by (simp add: HasSuffix_def)
  have b: "HasSuffix ''in/'' ''/''" by (simp add: HasSuffix_def)
  from download_shape_guards [where path = "''m/saved_model.pb''" and key = "''in/''",
         THEN conjunct1, rule_format, OF a]
       download_shape_guards [where path = "''m/saved_model.pb''" and key = "''in/''",
         THEN conjunct2, rule_format, OF b]
  show ?thesis by (intro conjI)
qed

section \<open>Properties of the predictions\<close>





section \<open>Properties of the handler\<close>

lemma downloadFile_io: "\<forall>e\<in>set (snd (downloadFile w bucket key dest)). \<not> handlerEvent e"
  by (auto simp: downloadFile_def split: sum.splits option.splits)

lemma downloadFiles_io:
  "\<forall>e\<in>set (snd (downloadFiles w bucket path localDest)). \<not> handlerEvent e"
  "\<forall>e\<in>set (snd (downloadFiles_loop w bucket path localDest i)). \<not> handlerEvent e"
proof (induction w bucket path localDest and w bucket path localDest i
       rule: downloadFiles_downloadFiles_loop.induct)
  case (1 w bucket path localDest)
  then show ?case by (subst downloadFiles.simps) (auto split: prod.splits)
next
  case (2 w bucket path localDest i)
  show ?case
  proof (cases "length (fst (listObjects w bucket path)) \<le> i")
    case True
    then show ?thesis by (subst downloadFiles_loop.simps) simp
  next
    case False
    define name where "name = fst (listObjects w bucket path) ! i"
    define n where "n = drop (length path) name"
    note ih = "2.IH" [OF False name_def n_def]
    have step: "downloadFiles_loop w bucket path localDest i =
        (if n = [] then downloadFiles_loop w bucket path localDest (Suc i)
         else if HasSuffix n ''/'' then
           (case downloadFiles w bucket name (localDest @ n) of
              (Some err, evs) \<Rightarrow> (Some err, evs)
            | (None, evs) \<Rightarrow>
                (case downloadFiles_loop w bucket path localDest (Suc i) of
                   (err, evs') \<Rightarrow> (err, evs @ evs')))
         else
           (case downloadFile w bucket name (localDest @ n) of
              (Some err, evs) \<Rightarrow> (Some err, evs)
            | (None, evs) \<Rightarrow>
                (case downloadFiles_loop w bucket path localDest (Suc i) of
                   (err, evs') \<Rightarrow> (err, evs @ evs'))))"
      using False by (subst downloadFiles_loop.simps) (simp add: name_def n_def Let_def)
    show ?thesis
    proof (cases "n = []")
      case True
      with ih(1) step show ?thesis by simp
    next
      case ne: False
      show ?thesis
      proof (cases "HasSuffix n ''/''")
        case True
        obtain e1 ev1 where r1: "downloadFiles w bucket name (localDest @ n) = (e1, ev1)"
          by (cases "downloadFiles w bucket name (localDest @ n)")
        from ih(2) [OF ne True] r1 have a: "\<forall>e\<in>set ev1. \<not> handlerEvent e" by simp
        have b: "e1 = None \<Longrightarrow>
            \<forall>e\<in>set (snd (downloadFiles_loop w bucket path localDest (Suc i))). \<not> handlerEvent e"
          using ih(3) [OF ne True] r1 by simp
        show ?thesis
          using ne True r1 a b unfolding step
          by (cases e1) (auto split: prod.splits)
      next
        case nd: False
        obtain e1 ev1 where r1: "downloadFile w bucket name (localDest @ n) = (e1, ev1)"
          by (cases "downloadFile w bucket name (localDest @ n)")
        from downloadFile_io [of w bucket name "localDest @ n"] r1
        have a: "\<forall>e\<in>set ev1. \<not> handlerEvent e" by simp
        have b: "e1 = None \<Longrightarrow>
            \<forall>e\<in>set (snd (downloadFiles_loop w bucket path localDest (Suc i))). \<not> handlerEvent e"
          using ih(4) [OF ne nd] r1 by simp
        show ?thesis
          using ne nd r1 a b unfolding step
          by (cases e1) (auto split: prod.splits)
      qed
    qed
  qed
qed

lemma makePredictions_file_io:
  "\<forall>e\<in>set (snd (makePredictions_file u ua m w inputPath outputPath name bytes)). \<not> handlerEvent e"
  by (auto simp: makePredictions_file_def split: prod.splits sum.splits option.splits)

lemma makePredictions_io:
  "\<forall>e\<in>set (snd (makePredictions u ua m w inputPath outputPath entries)). \<not> handlerEvent e"
  "\<forall>e\<in>set (snd (makePredictions_loop u ua m w inputPath outputPath entries)). \<not> handlerEvent e"
proof (induction u ua m w inputPath outputPath entries and u ua m w inputPath outputPath entries
       rule: makePredictions_makePredictions_loop.induct)
  case (1 u ua m w inputPath outputPath entries)
  then show ?case by (auto split: prod.splits option.splits)
next
  case (2 u ua m w inputPath outputPath)
  then show ?case by simp
next
  case (3 u ua m w inputPath outputPath name sub rest)
  then show ?case by (auto split: prod.splits option.splits)
next
  case (4 u ua m w inputPath outputPath name bytes rest)
  with makePredictions_file_io [of u ua m w inputPath outputPath name bytes]
  show ?case by (auto split: prod.splits option.splits)
qed

lemma uploadFile_file_io:
  "\<forall>e\<in>set (snd (uploadFile_file w bucket path localPath name bytes)). \<not> handlerEvent e"
  by (auto simp: uploadFile_file_def split: option.splits)

lemma uploadFile_io:
  "\<forall>e\<in>set (snd (uploadFile w bucket path localPath entries)). \<not> handlerEvent e"
  "\<forall>e\<in>set (snd (uploadFile_loop w bucket path localPath entries)). \<not> handlerEvent e"
proof (induction w bucket path localPath entries and w bucket path localPath entries
       rule: uploadFile_uploadFile_loop.induct)
  case (1 w bucket path localPath entries)
  then show ?case by (auto split: prod.splits option.splits)
next
  case (2 w bucket path localPath)
  then show ?case by simp
next
  case (3 w bucket path localPath name sub rest)
  then show ?case by (auto split: prod.splits option.splits)
next
  case (4 w bucket path localPath name bytes rest)
  with uploadFile_file_io [of w bucket path localPath name bytes]
  show ?case by (auto split: prod.splits option.splits)
qed

lemma respond_handlerEvent: "handlerEvent (respond status msg)"
  by (simp add: respond_def)

lemma LoadAndPredict_deferred_shape:
  "\<exists>io status body.
     LoadAndPredict_deferred u ua m w err bucketInput pathInput bucketOutput pathOutput
       = io @ [Respond status body] \<and> (\<forall>e\<in>set io. \<not> handlerEvent e)"
proof (cases err)
  case (Some e)
  then show ?thesis by (auto simp: LoadAndPredict_deferred_def respond_def)
next
  case None
  define dl where "dl =
    (if HasSuffix pathInput ''/''
     then downloadFiles w bucketInput pathInput LOCAL_INPUT_PATH
     else
       (let n = drop (nat (LastIndex pathInput ''/'' + 1)) pathInput
        in case downloadFile w bucketInput pathInput (LOCAL_INPUT_PATH @ n) of
             (e, evs) \<Rightarrow> (e, MkdirAll LOCAL_INPUT_PATH # evs)))"
  have dl_io: "\<forall>e\<in>set (snd dl). \<not> handlerEvent e"
    using downloadFiles_io(1) [of w bucketInput pathInput LOCAL_INPUT_PATH]
          downloadFile_io [of w bucketInput pathInput
            "LOCAL_INPUT_PATH @ drop (nat (LastIndex pathInput ''/'' + 1)) pathInput"]
    by (cases "HasSuffix pathInput ''/''") (auto simp: dl_def Let_def split: prod.splits)
  obtain e1 evs1 where r1: "dl = (e1, evs1)" by (cases dl)
  obtain e2 evs2 where r2: "makePredictions u ua m w LOCAL_INPUT_PATH LOCAL_OUTPUT_PATH (inputTree w)
      = (e2, evs2)"
    by (cases "makePredictions u ua m w LOCAL_INPUT_PATH LOCAL_OUTPUT_PATH (inputTree w)")
  obtain e3 evs3 where r3: "uploadFile w bucketOutput pathOutput LOCAL_OUTPUT_PATH (outputTree w)
      = (e3, evs3)"
    by (cases "uploadFile w bucketOutput pathOutput LOCAL_OUTPUT_PATH (outputTree w)")
  have io1: "\<forall>e\<in>set evs1. \<not> handlerEvent e" using dl_io r1 by simp
  have io2: "\<forall>e\<in>set evs2. \<not> handlerEvent e"
    using makePredictions_io(1) [of u ua m w LOCAL_INPUT_PATH LOCAL_OUTPUT_PATH "inputTree w"] r2
    by simp
  have io3: "\<forall>e\<in>set evs3. \<not> handlerEvent e"
    using uploadFile_io(1) [of w bucketOutput pathOutput LOCAL_OUTPUT_PATH "outputTree w"] r3
    by simp
  have run: "LoadAndPredict_deferred u ua m w err bucketInput pathInput bucketOutput pathOutput =
      (case e1 of
         Some e \<Rightarrow> evs1 @ [respond 500 ''error when downloading input files'']
       | None \<Rightarrow>
           (case e2 of
              Some e \<Rightarrow> evs1 @ evs2 @ [respond 500 ''error during predictions'']
            | None \<Rightarrow> evs1 @ evs2 @ evs3 @ [respond 200 ''predictions completed'']))"
    using None r1 r2 r3 unfolding LoadAndPredict_deferred_def dl_def [symmetric]
    by (simp split: option.splits)
  show ?thesis
  proof (cases e1)
    case (Some e)
    with run io1 show ?thesis by (auto simp: respond_def)
  next
    case n1: None
    show ?thesis
    proof (cases e2)
      case (Some e)
      with run n1 io1 io2 have "LoadAndPredict_deferred u ua m w err bucketInput pathInput
          bucketOutput pathOutput = (evs1 @ evs2) @ [Respond 500 (''error during predictions'' @ [newline])]
          \<and> (\<forall>e\<in>set (evs1 @ evs2). \<not> handlerEvent e)"
        by (auto simp: respond_def)
      then show ?thesis by blast
    next
      case n2: None
      with run n1 io1 io2 io3 have "LoadAndPredict_deferred u ua m w err bucketInput pathInput
          bucketOutput pathOutput
            = (evs1 @ evs2 @ evs3) @ [Respond 200 (''predictions completed'' @ [newline])]
          \<and> (\<forall>e\<in>set (evs1 @ evs2 @ evs3). \<not> handlerEvent e)"
        by (auto simp: respond_def)
      then show ?thesis by blast
    qed
  qed
qed

lemma LoadAndPredict_process_launched:
  assumes "Start \<in> set (events (LoadAndPredict_process u ua m w bucketModel pathModel
                                  bucketInput pathInput bucketOutput pathOutput))"
      and "startResult w = Inr pid"
    shows "\<exists>io status body.
             LoadAndPredict_process u ua m w bucketModel pathModel
                 bucketInput pathInput bucketOutput pathOutput
               = \<lparr>events = io @ [Respond status body, Kill pid], panic = None\<rparr>
           \<and> (\<forall>e\<in>set io. \<not> handlerEvent e \<or> e = Start)"
proof -
  let ?cleared = "[RemoveAll LOCAL_MODEL_PATH, RemoveAll LOCAL_INPUT_PATH,
                   RemoveAll LOCAL_OUTPUT_PATH, NewClient]"
  obtain e1 evs1 where r1:
    "downloadFiles w bucketModel pathModel (LOCAL_MODEL_PATH @ MODEL_DUMMY_VERSION) = (e1, evs1)"
    by (cases "downloadFiles w bucketModel pathModel (LOCAL_MODEL_PATH @ MODEL_DUMMY_VERSION)")
  have io1: "\<forall>e\<in>set evs1. \<not> handlerEvent e"
    using downloadFiles_io(1) [of w bucketModel pathModel "LOCAL_MODEL_PATH @ MODEL_DUMMY_VERSION"] r1
    by simp
  then have nostart: "Start \<notin> set evs1" by auto
  have c: "clientFault w = None"
  proof (rule ccontr)
    assume "clientFault w \<noteq> None"
    then obtain e where "clientFault w = Some e" by auto
    with assms(1) show False by (simp add: LoadAndPredict_process_def respond_def)
  qed
  have d: "e1 = None"
  proof (rule ccontr)
    assume "e1 \<noteq> None"
    then obtain e where "e1 = Some e" by auto
    with assms(1) c r1 nostart show False by (simp add: LoadAndPredict_process_def respond_def)
  qed
  obtain err where s: "startAndWaitTF w = (err, Some pid, [Start])"
    using assms(2) by (cases "copyAndCapture w 0 0") (auto simp: startAndWaitTF_def)
  obtain io status body where
    rest: "LoadAndPredict_deferred u ua m w err bucketInput pathInput bucketOutput pathOutput
       = io @ [Respond status body]" and io: "\<forall>e\<in>set io. \<not> handlerEvent e"
    using LoadAndPredict_deferred_shape [of u ua m w err bucketInput pathInput bucketOutput pathOutput]
    by blast
  have "LoadAndPredict_process u ua m w bucketModel pathModel
                 bucketInput pathInput bucketOutput pathOutput
      = \<lparr>events = (?cleared @ evs1 @ [Start] @ io) @ [Respond status body, Kill pid], panic = None\<rparr>"
    using c d r1 s rest by (simp add: LoadAndPredict_process_def)
  moreover have "\<forall>e\<in>set (?cleared @ evs1 @ [Start] @ io). \<not> handlerEvent e \<or> e = Start"
    using io1 io by auto
  ultimately show ?thesis by blast
qed

lemma LoadAndPredict_cases:
  "(\<exists>p. LoadAndPredict u ua m w q = \<lparr>events = [], panic = Some p\<rparr>)
 \<or> (\<exists>msg. LoadAndPredict u ua m w q = \<lparr>events = [respond 400 msg], panic = None\<rparr>)
 \<or> (\<exists>bucketModel pathModel bucketInput pathInput bucketOutput pathOutput.
       LoadAndPredict u ua m w q = LoadAndPredict_process u ua m w bucketModel pathModel
                 bucketInput pathInput bucketOutput pathOutput)"
proof (cases "getParam q ''model''")
  case (Panic p)
  then show ?thesis by (simp add: LoadAndPredict_def)
next
  case r1: (Returned t1)
  obtain bucketModel pathModel e1 where t1: "t1 = (bucketModel, pathModel, e1)" by (cases t1)
  show ?thesis
  proof (cases e1)
    case (Some e)
    with r1 t1 have "LoadAndPredict u ua m w q = \<lparr>events = [respond 400 (errorString e)], panic = None\<rparr>"
      by (simp add: LoadAndPredict_def)
    then show ?thesis by blast
  next
    case n1: None
    show ?thesis
    proof (cases "getParam q ''input''")
      case (Panic p)
      with r1 t1 n1 show ?thesis by (simp add: LoadAndPredict_def)
    next
      case r2: (Returned t2)
      obtain bucketInput pathInput e2 where t2: "t2 = (bucketInput, pathInput, e2)" by (cases t2)
      show ?thesis
      proof (cases e2)
    case (Some e)
    with r1 t1 n1 r2 t2 have "LoadAndPredict u ua m w q = \<lparr>events = [respond 400 (errorString e)], panic = None\<rparr>"
      by (simp add: LoadAndPredict_def)
    then show ?thesis by blast
      next
        case n2: None
        show ?thesis
        proof (cases "getParam q ''output''")
          case (Panic p)
          with r1 t1 n1 r2 t2 n2 show ?thesis by (simp add: LoadAndPredict_def)
        next
          case r3: (Returned t3)
          obtain bucketOutput pathOutput e3 where t3: "t3 = (bucketOutput, pathOutput, e3)"
            by (cases t3)
          show ?thesis
          proof (cases e3)
    case (Some e)
    with r1 t1 n1 r2 t2 n2 r3 t3 have "LoadAndPredict u ua m w q = \<lparr>events = [respond 400 (errorString e)], panic = None\<rparr>"
      by (simp add: LoadAndPredict_def)
    then show ?thesis by blast
          next
            case n3: None
            have "LoadAndPredict u ua m w q = LoadAndPredict_process u ua m w bucketModel
                (if \<not> HasSuffix pathModel ''/'' then pathModel @ ''/'' else pathModel)
                bucketInput pathInput bucketOutput pathOutput"
              using r1 t1 n1 r2 t2 n2 r3 t3 n3 by (simp add: LoadAndPredict_def)
            then show ?thesis by blast
          qed
        qed
      qed
    qed
  qed
qed

text \<open>
  Claim C3. Take a run in which the handler came to \<^verbatim>\<open>cmd.Start\<close> and the child was
  launched with handle \<open>pid\<close>. Whatever happens next (the stream fails, the timer fires,
  a download, a prediction or the upload fails, or all goes well) the run does not panic,
  its last event is \<^verbatim>\<open>Kill\<close> on that handle, and the event before it is the one
  response of the run: nothing is sent after the cleanup, and no other response or kill
  occurs. What \<^verbatim>\<open>Kill\<close> returns is dropped by the program and so has no place in
  the model.
\<close>

theorem LoadAndPredict_kills_child:
  assumes "Start \<in> set (events (LoadAndPredict u ua m w q))" and "startResult w = Inr pid"
  shows "panic (LoadAndPredict u ua m w q) = None
       \<and> (\<exists>io status body.
             events (LoadAndPredict u ua m w q) = io @ [Respond status body, Kill pid]
             \<and> (\<forall>e\<in>set io. \<not> handlerEvent e \<or> e = Start))"
proof -
  from LoadAndPredict_cases [of u ua m w q] assms(1)
  obtain bucketModel pathModel bucketInput pathInput bucketOutput pathOutput
    where eq: "LoadAndPredict u ua m w q = LoadAndPredict_process u ua m w bucketModel pathModel
                 bucketInput pathInput bucketOutput pathOutput"
    by (auto simp: respond_def)
  from LoadAndPredict_process_launched [OF assms(1) [unfolded eq] assms(2)]
  obtain io status body where
    "LoadAndPredict_process u ua m w bucketModel pathModel bucketInput pathInput bucketOutput pathOutput
       = \<lparr>events = io @ [Respond status body, Kill pid], panic = None\<rparr>"
    and "\<forall>e\<in>set io. \<not> handlerEvent e \<or> e = Start"
    by blast
  with eq show ?thesis by auto
qed

lemma sample_formatInput:
  \<open>formatInput sampleUnmarshal sampleMarshal \<lparr>content = ''{"x":1}'' @ [newline], readFault = None\<rparr>
    = (''{"instances":[{"x":1}]}'', None)\<close>
proof -
  have \<open>consistsOfLines (content \<lparr>content = ''{"x":1}'' @ [newline], readFault = None\<rparr>) [''{"x":1}'']\<close>
    by (simp add: consistsOfLines_def joinLines_def newline_def)
  moreover have \<open>map sampleUnmarshal (map dropCR [''{"x":1}'']) = map Inr [JObject [(''x'', JNumber ''1'')]]\<close>
    by code_simp
  moreover have \<open>map sampleMarshal [JObject [(''x'', JNumber ''1'')]] = map Inr [''{"x":1}'']\<close>
    by code_simp
  ultimately show ?thesis
    using formatInput_accepts(1) [where unmarshal = sampleUnmarshal and marshal = sampleMarshal
        and input = \<open>\<lparr>content = ''{"x":1}'' @ [newline], readFault = None\<rparr>\<close> and ls = \<open>[''{"x":1}'']\<close>
        and vs = \<open>[JObject [(''x'', JNumber ''1'')]]\<close> and bs = \<open>[''{"x":1}'']\<close>]
    by (simp add: MaxScanTokenSize_def)
qed

lemma sample_formatOutput:
  \<open>formatOutput sampleUnmarshalAnswer sampleMarshal
      \<lparr>content = ''{"predictions":[{"y":1}]}'', readFault = None\<rparr> = (''{"y":1}'' @ [newline], None)\<close>
  by code_simp

lemma sample_params:
  "getParam sampleQuery ''model'' = Returned (''models'', ''m/'', None)"
  "getParam sampleQuery ''input'' = Returned (''data'', ''in/a.jsonl'', None)"
  "getParam sampleQuery ''output'' = Returned (''results'', ''out'', None)"
  by code_simp+

lemma sample_model:
  "downloadFiles sampleWorld ''models'' ''m/'' (LOCAL_MODEL_PATH @ MODEL_DUMMY_VERSION) = (None,
     [MkdirAll ''/tmp/model/000000/'', ListObjects ''models'' ''m/'',
      NewReader ''models'' ''m/saved_model.pb'', Create ''/tmp/model/000000/saved_model.pb'',
      CopyToFile ''/tmp/model/000000/saved_model.pb'' ''pb''])"
  "downloadFiles readOnlyWorld ''models'' ''m/'' (LOCAL_MODEL_PATH @ MODEL_DUMMY_VERSION) = (None,
     [MkdirAll ''/tmp/model/000000/'', ListObjects ''models'' ''m/'',
      NewReader ''models'' ''m/saved_model.pb'', Create ''/tmp/model/000000/saved_model.pb'',
      CopyToFile ''/tmp/model/000000/saved_model.pb'' ''pb''])"
  by code_simp+

lemma sample_start:
  "startAndWaitTF sampleWorld = (None, Some 4242, [Start])"
  "startAndWaitTF readOnlyWorld = (None, Some 4242, [Start])"
  by code_simp+

lemma sample_input:
  \<open>downloadFile sampleWorld ''data'' ''in/a.jsonl'' (LOCAL_INPUT_PATH @ ''a.jsonl'') = (None,
     [NewReader ''data'' ''in/a.jsonl'', Create ''/tmp/input/a.jsonl'',
      CopyToFile ''/tmp/input/a.jsonl'' (''{"x":1}'' @ [newline])])\<close>
  \<open>downloadFile readOnlyWorld ''data'' ''in/a.jsonl'' (LOCAL_INPUT_PATH @ ''a.jsonl'') = (None,
     [NewReader ''data'' ''in/a.jsonl'', Create ''/tmp/input/a.jsonl'',
      CopyToFile ''/tmp/input/a.jsonl'' (''{"x":1}'' @ [newline])])\<close>
  by code_simp+

lemma sample_predictions:
  \<open>makePredictions sampleUnmarshal sampleUnmarshalAnswer sampleMarshal sampleWorld
      LOCAL_INPUT_PATH LOCAL_OUTPUT_PATH (inputTree sampleWorld) = (None,
     [ReadDir ''/tmp/input/'', MkdirAll ''/tmp/output/'', Open ''/tmp/input/a.jsonl'',
      Post ''{"instances":[{"x":1}]}'', Create ''/tmp/output/prediction_a.jsonl'',
      CopyToFile ''/tmp/output/prediction_a.jsonl'' (''{"y":1}'' @ [newline])])\<close>
  \<open>makePredictions sampleUnmarshal sampleUnmarshalAnswer sampleMarshal readOnlyWorld
      LOCAL_INPUT_PATH LOCAL_OUTPUT_PATH (inputTree readOnlyWorld) = (None,
     [ReadDir ''/tmp/input/'', MkdirAll ''/tmp/output/'', Open ''/tmp/input/a.jsonl'',
      Post ''{"instances":[{"x":1}]}'', Create ''/tmp/output/prediction_a.jsonl'',
      CopyToFile ''/tmp/output/prediction_a.jsonl'' (''{"y":1}'' @ [newline])])\<close>
  by (simp_all add: sampleWorld_def readOnlyWorld_def makePredictions_file_def
        sample_formatInput [simplified] sample_formatOutput [simplified]
        LOCAL_INPUT_PATH_def LOCAL_OUTPUT_PATH_def OUTPUT_PREFIX_def)

lemma sample_upload:
  \<open>uploadFile sampleWorld ''results'' ''out'' LOCAL_OUTPUT_PATH (outputTree sampleWorld) = (None,
     [ReadDir ''/tmp/output/'', Open ''/tmp/output/prediction_a.jsonl'',
      CopyToObject ''results'' ''out/prediction_a.jsonl'' (''{"y":1}'' @ [newline]),
      CloseWriter ''results'' ''out/prediction_a.jsonl''])\<close>
  \<open>uploadFile readOnlyWorld ''results'' ''out'' LOCAL_OUTPUT_PATH (outputTree readOnlyWorld)
     = (Some (LibError ''googleapi: Error 403''),
     [ReadDir ''/tmp/output/'', Open ''/tmp/output/prediction_a.jsonl'',
      CopyToObject ''results'' ''out/prediction_a.jsonl'' (''{"y":1}'' @ [newline]),
      CloseWriter ''results'' ''out/prediction_a.jsonl''])\<close>
  by code_simp+

lemma sample_suffix:
  "HasSuffix ''m/'' ''/''" "\<not> HasSuffix ''in/a.jsonl'' ''/''"
  "drop (nat (LastIndex ''in/a.jsonl'' ''/'' + 1)) ''in/a.jsonl'' = ''a.jsonl''"
  by code_simp+

lemma sample_run:
  \<open>LoadAndPredict sampleUnmarshal sampleUnmarshalAnswer sampleMarshal sampleWorld sampleQuery =
     \<lparr>events =
        [RemoveAll ''/tmp/model/'', RemoveAll ''/tmp/input/'', RemoveAll ''/tmp/output/'', NewClient,
         MkdirAll ''/tmp/model/000000/'', ListObjects ''models'' ''m/'',
         NewReader ''models'' ''m/saved_model.pb'', Create ''/tmp/model/000000/saved_model.pb'',
         CopyToFile ''/tmp/model/000000/saved_model.pb'' ''pb'',
         Start,
         MkdirAll ''/tmp/input/'', NewReader ''data'' ''in/a.jsonl'', Create ''/tmp/input/a.jsonl'',
         CopyToFile ''/tmp/input/a.jsonl'' (''{"x":1}'' @ [newline]),
         ReadDir ''/tmp/input/'', MkdirAll ''/tmp/output/'', Open ''/tmp/input/a.jsonl'',
         Post ''{"instances":[{"x":1}]}'', Create ''/tmp/output/prediction_a.jsonl'',
         CopyToFile ''/tmp/output/prediction_a.jsonl'' (''{"y":1}'' @ [newline]),
         ReadDir ''/tmp/output/'', Open ''/tmp/output/prediction_a.jsonl'',
         CopyToObject ''results'' ''out/prediction_a.jsonl'' (''{"y":1}'' @ [newline]),
         CloseWriter ''results'' ''out/prediction_a.jsonl'',
         Respond 200 (''predictions completed'' @ [newline]),
         Kill 4242],
      panic = None\<rparr>\<close>
proof -
  have c: "clientFault sampleWorld = None" by (simp add: sampleWorld_def)
  show ?thesis
    unfolding LoadAndPredict_def LoadAndPredict_process_def LoadAndPredict_deferred_def
    by (simp add: sample_params sample_suffix c sample_model sample_start sample_input
          sample_predictions sample_upload respond_def
          del: makePredictions.simps uploadFile.simps)
       (simp add: LOCAL_MODEL_PATH_def LOCAL_INPUT_PATH_def LOCAL_OUTPUT_PATH_def)
qed

text \<open>
  Claim C1. A request in the world whose store refuses every write: all steps up to the
  upload go well, \<^verbatim>\<open>uploadFile\<close> returns the error of \<^verbatim>\<open>Close\<close>, and the handler
  answers 200 with the text of success. The claim says a failure of the upload is
  reported as a failure.
\<close>

theorem LoadAndPredict_upload_failure_reports_success:
  \<open>fst (uploadFile readOnlyWorld ''results'' ''out'' LOCAL_OUTPUT_PATH (outputTree readOnlyWorld))
     = Some (LibError ''googleapi: Error 403'')
 \<and> LoadAndPredict sampleUnmarshal sampleUnmarshalAnswer sampleMarshal readOnlyWorld sampleQuery =
     \<lparr>events =
        [RemoveAll ''/tmp/model/'', RemoveAll ''/tmp/input/'', RemoveAll ''/tmp/output/'', NewClient,
         MkdirAll ''/tmp/model/000000/'', ListObjects ''models'' ''m/'',
         NewReader ''models'' ''m/saved_model.pb'', Create ''/tmp/model/000000/saved_model.pb'',
         CopyToFile ''/tmp/model/000000/saved_model.pb'' ''pb'',
         Start,
         MkdirAll ''/tmp/input/'', NewReader ''data'' ''in/a.jsonl'', Create ''/tmp/input/a.jsonl'',
         CopyToFile ''/tmp/input/a.jsonl'' (''{"x":1}'' @ [newline]),
         ReadDir ''/tmp/input/'', MkdirAll ''/tmp/output/'', Open ''/tmp/input/a.jsonl'',
         Post ''{"instances":[{"x":1}]}'', Create ''/tmp/output/prediction_a.jsonl'',
         CopyToFile ''/tmp/output/prediction_a.jsonl'' (''{"y":1}'' @ [newline]),
         ReadDir ''/tmp/output/'', Open ''/tmp/output/prediction_a.jsonl'',
         CopyToObject ''results'' ''out/prediction_a.jsonl'' (''{"y":1}'' @ [newline]),
         CloseWriter ''results'' ''out/prediction_a.jsonl'',
         Respond 200 (''predictions completed'' @ [newline]),
         Kill 4242],
      panic = None\<rparr>\<close>
proof (intro conjI)
  show \<open>fst (uploadFile readOnlyWorld ''results'' ''out'' LOCAL_OUTPUT_PATH (outputTree readOnlyWorld))
     = Some (LibError ''googleapi: Error 403'')\<close>
    by (simp add: sample_upload del: uploadFile.simps)
next
  have c: "clientFault readOnlyWorld = None" by (simp add: readOnlyWorld_def sampleWorld_def)
  show \<open>LoadAndPredict sampleUnmarshal sampleUnmarshalAnswer sampleMarshal readOnlyWorld sampleQuery =
     \<lparr>events =
        [RemoveAll ''/tmp/model/'', RemoveAll ''/tmp/input/'', RemoveAll ''/tmp/output/'', NewClient,
         MkdirAll ''/tmp/model/000000/'', ListObjects ''models'' ''m/'',
         NewReader ''models'' ''m/saved_model.pb'', Create ''/tmp/model/000000/saved_model.pb'',
         CopyToFile ''/tmp/model/000000/saved_model.pb'' ''pb'',
         Start,
         MkdirAll ''/tmp/input/'', NewReader ''data'' ''in/a.jsonl'', Create ''/tmp/input/a.jsonl'',
         CopyToFile ''/tmp/input/a.jsonl'' (''{"x":1}'' @ [newline]),
         ReadDir ''/tmp/input/'', MkdirAll ''/tmp/output/'', Open ''/tmp/input/a.jsonl'',
         Post ''{"instances":[{"x":1}]}'', Create ''/tmp/output/prediction_a.jsonl'',
         CopyToFile ''/tmp/output/prediction_a.jsonl'' (''{"y":1}'' @ [newline]),
         ReadDir ''/tmp/output/'', Open ''/tmp/output/prediction_a.jsonl'',
         CopyToObject ''results'' ''out/prediction_a.jsonl'' (''{"y":1}'' @ [newline]),
         CloseWriter ''results'' ''out/prediction_a.jsonl'',
         Respond 200 (''predictions completed'' @ [newline]),
         Kill 4242],
      panic = None\<rparr>\<close>
    unfolding LoadAndPredict_def LoadAndPredict_process_def LoadAndPredict_deferred_def
    by (simp add: sample_params sample_suffix c sample_model sample_start sample_input
          sample_predictions sample_upload respond_def
          del: makePredictions.simps uploadFile.simps)
       (simp add: LOCAL_MODEL_PATH_def LOCAL_INPUT_PATH_def LOCAL_OUTPUT_PATH_def)
qed

text \<open>The sample request: the run ends with the response and the kill of process 4242.\<close>

theorem LoadAndPredict_kills_child_witness:
  "panic (LoadAndPredict sampleUnmarshal sampleUnmarshalAnswer sampleMarshal sampleWorld sampleQuery) = None
 \<and> (\<exists>io status body.
       events (LoadAndPredict sampleUnmarshal sampleUnmarshalAnswer sampleMarshal sampleWorld sampleQuery)
         = io @ [Respond status body, Kill 4242]
       \<and> list_all (\<lambda>e. \<not> handlerEvent e \<or> e = Start) io)"
proof -
  have s: "Start \<in> set (events (LoadAndPredict sampleUnmarshal sampleUnmarshalAnswer sampleMarshal
                                 sampleWorld sampleQuery))"
    by (simp add: sample_run)
  have p: "startResult sampleWorld = Inr 4242" by (simp add: sampleWorld_def)
  from LoadAndPredict_kills_child [OF s p] show ?thesis by (simp add: list_all_iff)
qed

end
